theory Spec2Isabelle
  imports Complex_Main "HOL-Library.Sublist"
begin

section \<open>Python values used by the crawler\<close>

text \<open>
  Strings are Python \<open>str\<close> values over the code points 0..255, one \<open>char\<close> per code
  point. Exceptions are values: a function that may raise returns
  \<open>py_exception + 'a\<close>, with \<open>Inl\<close> for the exception raised.
\<close>

datatype py_exception =
    TimeoutError
  | ValueError string
  | AttributeError string
  | OtherError string

text \<open>\<open>str(e)\<close> of an exception: its message.\<close>

fun exception_str :: "py_exception \<Rightarrow> string" where
  "exception_str TimeoutError = []"
| "exception_str (ValueError m) = m"
| "exception_str (AttributeError m) = m"
| "exception_str (OtherError m) = m"

text \<open>
  \<open>str.lower()\<close> on code points below 256: the ASCII capitals and the Latin-1
  capitals 192..222 (without the multiplication sign 215) move up by 32. Above
  that range \<open>str.lower()\<close> depends on the context (a final sigma) and can change
  the length of a string; such strings are outside this model.
\<close>

definition lower_char :: "char \<Rightarrow> char" where
  "lower_char c =
     (let n = (of_char c :: nat)
      in if (65 \<le> n \<and> n \<le> 90) \<or> (192 \<le> n \<and> n \<le> 222 \<and> n \<noteq> 215)
         then char_of (n + 32) else c)"

definition lower :: "string \<Rightarrow> string" where
  "lower s = map lower_char s"

text \<open>\<open>c.isascii() and c.isalpha()\<close>.\<close>

definition ascii_letters :: string where
  "ascii_letters = ''abcdefghijklmnopqrstuvwxyzABCDEFGHIJKLMNOPQRSTUVWXYZ''"

definition is_ascii_alpha :: "char \<Rightarrow> bool" where
  "is_ascii_alpha c = (c \<in> set ascii_letters)"

text \<open>\<open>sub in s\<close> for strings.\<close>

definition str_contains :: "string \<Rightarrow> string \<Rightarrow> bool" where
  "str_contains sub s = list_ex (\<lambda>t. prefix sub t) (suffixes s)"

text \<open>
  \<open>s.split(c, 1)\<close> for a separator that may be absent: the part before the first
  \<open>c\<close> and the part after it (empty when there is no \<open>c\<close>).
\<close>

definition split_once :: "char \<Rightarrow> string \<Rightarrow> string \<times> string" where
  "split_once c s = (takeWhile (\<lambda>x. x \<noteq> c) s, drop 1 (dropWhile (\<lambda>x. x \<noteq> c) s))"

section \<open>The standard library's URL parser (urllib.parse, CPython 3.11)\<close>

text \<open>
  \<open>normalize_url\<close> and \<open>is_valid_url\<close> are thin wrappers around \<open>urlparse\<close> and
  \<open>urlunparse\<close>, so these are modelled statement by statement. Two parts of the
  library are not computed here:
  \<^item> \<open>_check_bracketed_host\<close>, which validates an IP literal between brackets with the
    \<open>ipaddress\<close> module, is a parameter \<open>hc\<close>: it returns the message of the
    \<open>ValueError\<close> it raises, or \<open>None\<close>. Library versions before 3.11.4 have no such
    check (\<open>hc = (\<lambda>_. None)\<close>); the check of 3.11.4 and later is
    \<open>check_bracketed_host\<close> below.
  \<^item> \<open>_checknetloc\<close> raises only when NFKC normalisation of the host produces one of
    \<open>/?#@:\<close>, which no code point below 256 does.
\<close>

type_synonym host_check = "string \<Rightarrow> string option"

definition scheme_chars :: string where
  "scheme_chars = ''abcdefghijklmnopqrstuvwxyzABCDEFGHIJKLMNOPQRSTUVWXYZ0123456789+-.''"

definition uses_netloc :: "string list" where
  "uses_netloc = ['''', ''ftp'', ''http'', ''gopher'', ''nntp'', ''telnet'',
     ''imap'', ''wais'', ''file'', ''mms'', ''https'', ''shttp'',
     ''snews'', ''prospero'', ''rtsp'', ''rtsps'', ''rtspu'', ''rsync'',
     ''svn'', ''svn+ssh'', ''sftp'', ''nfs'', ''git'', ''git+ssh'',
     ''ws'', ''wss'']"

definition uses_params :: "string list" where
  "uses_params = ['''', ''ftp'', ''hdl'', ''prospero'', ''http'', ''imap'',
     ''https'', ''shttp'', ''rtsp'', ''rtsps'', ''rtspu'', ''sip'',
     ''sips'', ''mms'', ''sftp'', ''tel'']"

text \<open>\<open>url.lstrip(_WHATWG_C0_CONTROL_OR_SPACE)\<close>: leading code points 0..32 go.\<close>

definition lstrip_c0 :: "string \<Rightarrow> string" where
  "lstrip_c0 s = dropWhile (\<lambda>c. (of_char c :: nat) \<le> 32) s"

text \<open>Tab, carriage return and line feed are removed wherever they stand.\<close>

definition unsafe_bytes :: string where
  "unsafe_bytes = [CHR 0x09, CHR 0x0D, CHR 0x0A]"

definition remove_unsafe :: "string \<Rightarrow> string" where
  "remove_unsafe s = filter (\<lambda>c. c \<notin> set unsafe_bytes) s"

text \<open>
  The scheme: the text before the first colon, when that text is not empty, starts
  with an ASCII letter and holds scheme characters only. It is lower-cased here.
\<close>

definition split_scheme :: "string \<Rightarrow> string \<times> string" where
  "split_scheme url =
     (let pre = takeWhile (\<lambda>c. c \<noteq> CHR '':'') url
      in case pre of
           [] \<Rightarrow> ([], url)
         | c # _ \<Rightarrow>
             if (CHR '':'') \<in> set url \<and> is_ascii_alpha c
                \<and> list_all (\<lambda>x. x \<in> set scheme_chars) pre
             then (lower pre, drop (Suc (length pre)) url)
             else ([], url))"

definition netloc_delims :: string where
  "netloc_delims = ''/?#''"

text \<open>\<open>_splitnetloc(url, 2)\<close>: the host part ends at the first of \<open>/?#\<close>.\<close>

definition splitnetloc :: "string \<Rightarrow> string \<times> string" where
  "splitnetloc url =
     (takeWhile (\<lambda>c. c \<notin> set netloc_delims) (drop 2 url),
      dropWhile (\<lambda>c. c \<notin> set netloc_delims) (drop 2 url))"

text \<open>\<open>netloc.partition('[')[2].partition(']')[0]\<close>.\<close>

definition bracketed_host :: "string \<Rightarrow> string" where
  "bracketed_host netloc =
     takeWhile (\<lambda>c. c \<noteq> CHR '']'') (drop 1 (dropWhile (\<lambda>c. c \<noteq> CHR ''['') netloc))"

text \<open>The checks on the host part; \<open>None\<close> when none of them raises.\<close>

definition netloc_error :: "host_check \<Rightarrow> string \<Rightarrow> py_exception option" where
  "netloc_error hc netloc =
     (let ob = (CHR ''['') \<in> set netloc; cb = (CHR '']'') \<in> set netloc
      in if (ob \<and> \<not> cb) \<or> (cb \<and> \<not> ob) then Some (ValueError ''Invalid IPv6 URL'')
         else if ob \<and> cb then map_option ValueError (hc (bracketed_host netloc))
         else None)"

text \<open>The tail of \<open>urlsplit\<close>: fragment first, then query.\<close>

definition split_tail ::
  "string \<Rightarrow> string \<Rightarrow> string \<Rightarrow> string \<times> string \<times> string \<times> string \<times> string" where
  "split_tail scheme netloc url =
     (let (url1, fragment) = split_once (CHR ''#'') url;
          (url2, query) = split_once (CHR ''?'') url1
      in (scheme, netloc, url2, query, fragment))"

definition urlsplit ::
  "host_check \<Rightarrow> string \<Rightarrow> py_exception + (string \<times> string \<times> string \<times> string \<times> string)" where
  "urlsplit hc url0 =
     (let (scheme, url) = split_scheme (remove_unsafe (lstrip_c0 url0))
      in if take 2 url = ''//''
         then (let (netloc, rest) = splitnetloc url
               in case netloc_error hc netloc of
                    Some e \<Rightarrow> Inl e
                  | None \<Rightarrow> Inr (split_tail scheme netloc rest))
         else Inr (split_tail scheme [] url))"

text \<open>
  \<open>_splitparams\<close>: the parameters start at the first semicolon of the last path
  segment.
\<close>

definition splitparams :: "string \<Rightarrow> string \<times> string" where
  "splitparams url =
     (if (CHR ''/'') \<in> set url
      then (let seg = rev (takeWhile (\<lambda>c. c \<noteq> CHR ''/'') (rev url));
                dir = rev (dropWhile (\<lambda>c. c \<noteq> CHR ''/'') (rev url))
            in if (CHR '';'') \<in> set seg
               then (dir @ fst (split_once (CHR '';'') seg), snd (split_once (CHR '';'') seg))
               else (url, []))
      else split_once (CHR '';'') url)"

record ParseResult =
  scheme :: string
  netloc :: string
  path :: string
  params :: string
  query :: string
  fragment :: string

definition urlparse :: "host_check \<Rightarrow> string \<Rightarrow> py_exception + ParseResult" where
  "urlparse hc url =
     (case urlsplit hc url of
        Inl e \<Rightarrow> Inl e
      | Inr (sch, loc, u, q, f) \<Rightarrow>
          (let (p, ps) = (if sch \<in> set uses_params \<and> (CHR '';'') \<in> set u
                          then splitparams u else (u, []))
           in Inr \<lparr>scheme = sch, netloc = loc, path = p, params = ps,
                   query = q, fragment = f\<rparr>))"

definition urlunsplit :: "string \<times> string \<times> string \<times> string \<times> string \<Rightarrow> string" where
  "urlunsplit c =
     (case c of (sch, loc, url, q, f) \<Rightarrow>
        (let url1 = (if loc \<noteq> [] \<or> (sch \<noteq> [] \<and> sch \<in> set uses_netloc)
                        \<or> take 2 url = ''//''
                     then ''//'' @ loc @ (if url \<noteq> [] \<and> take 1 url \<noteq> ''/''
                                           then ''/'' @ url else url)
                     else url);
             url2 = (if sch \<noteq> [] then sch @ '':'' @ url1 else url1);
             url3 = (if q \<noteq> [] then url2 @ ''?'' @ q else url2)
         in if f \<noteq> [] then url3 @ ''#'' @ f else url3))"

definition urlunparse ::
  "string \<times> string \<times> string \<times> string \<times> string \<times> string \<Rightarrow> string" where
  "urlunparse c =
     (case c of (sch, loc, url, ps, q, f) \<Rightarrow>
        urlunsplit (sch, loc, (if ps \<noteq> [] then url @ '';'' @ ps else url), q, f))"

subsection \<open>The library's check of a bracketed host (CPython 3.11.4 and later)\<close>

text \<open>
  \<open>_check_bracketed_host\<close>, statement by statement. A host that starts with a
  lower-case \<open>v\<close> must match the pattern of an IPvFuture literal; any other host goes
  to \<open>ipaddress.ip_address\<close> and must come back as an IPv6 address. Of
  \<open>ip_address\<close> the IPv4 parser is modelled in full. The IPv6 parser splits at the
  colons and needs three parts at least, so a string without a colon is never an
  IPv6 address; which strings with a colon it accepts is the parameter \<open>ipv6\<close>.
\<close>

definition hex_digits :: string where
  "hex_digits = ''0123456789abcdefABCDEF''"

definition decimal_digits :: string where
  "decimal_digits = ''0123456789''"

text \<open>\<open>re.match(r"\Av[a-fA-F0-9]+\..+\Z", hostname)\<close>; the dot matches all but a line feed.\<close>

definition ipvfuture_match :: "string \<Rightarrow> bool" where
  "ipvfuture_match hostname =
     (case hostname of
        [] \<Rightarrow> False
      | c # t \<Rightarrow>
          c = CHR ''v''
          \<and> takeWhile (\<lambda>x. x \<in> set hex_digits) t \<noteq> []
          \<and> (case dropWhile (\<lambda>x. x \<in> set hex_digits) t of
                [] \<Rightarrow> False
              | d # rest \<Rightarrow> d = CHR ''.'' \<and> rest \<noteq> [] \<and> CHR 0x0A \<notin> set rest))"

text \<open>\<open>s.split(c)\<close>.\<close>

fun split_on :: "char \<Rightarrow> string \<Rightarrow> string list" where
  "split_on c [] = [[]]"
| "split_on c (x # xs) =
     (if x = c then [] # split_on c xs
      else (case split_on c xs of
              [] \<Rightarrow> [[x]]
            | p # ps \<Rightarrow> (x # p) # ps))"

definition decimal_value :: "string \<Rightarrow> nat" where
  "decimal_value s = foldl (\<lambda>n c. 10 * n + (of_char c - 48)) 0 s"

text \<open>\<open>IPv4Address._parse_octet\<close> returns instead of raising.\<close>

definition parse_octet_ok :: "string \<Rightarrow> bool" where
  "parse_octet_ok octet_str =
     (octet_str \<noteq> []
      \<and> list_all (\<lambda>c. c \<in> set decimal_digits) octet_str
      \<and> length octet_str \<le> 3
      \<and> (octet_str = ''0'' \<or> take 1 octet_str \<noteq> ''0'')
      \<and> decimal_value octet_str \<le> 255)"

definition is_ipv4 :: "string \<Rightarrow> bool" where
  "is_ipv4 ip_str =
     (ip_str \<noteq> [] \<and> CHR ''/'' \<notin> set ip_str
      \<and> length (split_on (CHR ''.'') ip_str) = 4
      \<and> list_all parse_octet_ok (split_on (CHR ''.'') ip_str))"

text \<open>
  \<open>repr\<close> of a string over code points below 256: double quotes when the string
  holds a single quote and no double quote, single quotes otherwise; the quote in use
  and the backslash are escaped, tab, line feed and carriage return are written
  \<open>\t\<close>, \<open>\n\<close>, \<open>\r\<close>, and the other code points that are not printable
  (0..31, 127..160, 173) as \<open>\xNN\<close>.
\<close>

definition py_printable :: "char \<Rightarrow> bool" where
  "py_printable c =
     (let n = (of_char c :: nat)
      in (32 \<le> n \<and> n < 127) \<or> (161 \<le> n \<and> n \<noteq> 173))"

definition hex2 :: "nat \<Rightarrow> string" where
  "hex2 n = [''0123456789abcdef'' ! (n div 16 mod 16), ''0123456789abcdef'' ! (n mod 16)]"

definition repr_char :: "char \<Rightarrow> char \<Rightarrow> string" where
  "repr_char quote c =
     (if c = quote \<or> c = CHR 0x5C then [CHR 0x5C, c]
      else if c = CHR 0x09 then [CHR 0x5C, CHR ''t'']
      else if c = CHR 0x0A then [CHR 0x5C, CHR ''n'']
      else if c = CHR 0x0D then [CHR 0x5C, CHR ''r'']
      else if \<not> py_printable c then [CHR 0x5C, CHR ''x''] @ hex2 (of_char c)
      else [c])"

definition py_repr :: "string \<Rightarrow> string" where
  "py_repr s =
     (let quote = (if CHR 0x27 \<in> set s \<and> CHR 0x22 \<notin> set s then CHR 0x22 else CHR 0x27)
      in [quote] @ concat (map (repr_char quote) s) @ [quote])"

datatype ip_version = IPv4Address | IPv6Address

definition ip_address :: "(string \<Rightarrow> bool) \<Rightarrow> string \<Rightarrow> string + ip_version" where
  "ip_address ipv6 address =
     (if is_ipv4 address then Inr IPv4Address
      else if CHR '':'' \<in> set address \<and> ipv6 address then Inr IPv6Address
      else Inl (py_repr address @ '' does not appear to be an IPv4 or IPv6 address''))"

definition check_bracketed_host :: "(string \<Rightarrow> bool) \<Rightarrow> host_check" where
  "check_bracketed_host ipv6 hostname =
     (if take 1 hostname = ''v''
      then (if ipvfuture_match hostname then None
            else Some ''IPvFuture address is invalid'')
      else (case ip_address ipv6 hostname of
              Inl message \<Rightarrow> Some message
            | Inr IPv4Address \<Rightarrow> Some ''An IPv4 address cannot be in brackets''
            | Inr IPv6Address \<Rightarrow> None))"

section \<open>The URL normalizer and the validity check (crawler.py)\<close>

record CrawlerConfig =
  max_depth :: int
  max_pages :: int
  max_workers :: int
  stay_in_domain :: bool

text \<open>
  \<open>normalize_url\<close> has no handler of its own: an exception of \<open>urlparse\<close> leaves it.
\<close>

definition normalize_url :: "host_check \<Rightarrow> string \<Rightarrow> py_exception + string" where
  "normalize_url hc url =
     (case urlparse hc url of
        Inl e \<Rightarrow> Inl e
      | Inr parsed \<Rightarrow>
          Inr (urlunparse (lower (scheme parsed), lower (netloc parsed), path parsed,
                 params parsed, query parsed, [])))"

definition skip_extensions :: "string list" where
  "skip_extensions =
     [''.jpg'', ''.jpeg'', ''.png'', ''.gif'', ''.bmp'', ''.ico'',
      ''.pdf'', ''.doc'', ''.docx'', ''.xls'', ''.xlsx'', ''.zip'',
      ''.tar'', ''.gz'', ''.mp3'', ''.mp4'', ''.avi'', ''.mov'']"

text \<open>
  \<open>is_valid_url\<close>: \<open>base_domain\<close> is \<open>None\<close> when the caller passes none; the whole
  body is inside \<open>try ... except Exception: return False\<close>.
\<close>

definition is_valid_url ::
  "host_check \<Rightarrow> CrawlerConfig \<Rightarrow> string \<Rightarrow> string option \<Rightarrow> bool" where
  "is_valid_url hc config url base_domain =
     (case urlparse hc url of
        Inl e \<Rightarrow> False
      | Inr parsed \<Rightarrow>
          if scheme parsed = [] \<or> netloc parsed = [] then False
          else if (scheme parsed) \<notin> set [''http'', ''https''] then False
          else if (case base_domain of None \<Rightarrow> False | Some b \<Rightarrow> b \<noteq> [])
                  \<and> stay_in_domain config
                  \<and> lower (netloc parsed) \<noteq> lower (the base_domain) then False
          else if list_ex (\<lambda>ext. suffix ext (lower (path parsed))) skip_extensions
          then False
          else True)"

section \<open>Crawl results and the crawler's shared state (crawler.py)\<close>

record CrawlResult =
  url :: string
  status_code :: int
  title :: string
  content_length :: int
  links :: "string list"
  timestamp :: real
  error :: "string option"

text \<open>
  The fields of \<open>WebCrawler\<close> that the workers share. \<open>put_log\<close> is a history
  variable: every \<open>url_queue.put\<close> of the run, in order. \<open>stored_pages\<close> lists the
  calls of \<open>db.store_page\<close>, \<open>worker_errors\<close> the exceptions that the
  workers' handler logged (by their messages). The start time of the statistics is
  left out: nothing but the final report reads it.
\<close>

record crawler_state =
  visited_urls :: "string set"
  queued_urls :: "string set"
  url_queue :: "(string \<times> int) list"
  total_crawled :: int
  successful :: int
  failed :: int
  robots_blocked :: int
  put_log :: "(string \<times> int) list"
  stored_pages :: "CrawlResult list"
  worker_errors :: "string list"

definition init_state :: crawler_state where
  "init_state =
     \<lparr>visited_urls = {}, queued_urls = {}, url_queue = [],
      total_crawled = 0, successful = 0, failed = 0, robots_blocked = 0,
      put_log = [], stored_pages = [], worker_errors = []\<rparr>"

definition queue_put :: "string \<times> int \<Rightarrow> crawler_state \<Rightarrow> crawler_state" where
  "queue_put t s = s\<lparr>url_queue := url_queue s @ [t], put_log := put_log s @ [t]\<rparr>"

subsection \<open>Seeding (crawl, lines 315-320)\<close>

text \<open>
  The seed loop of \<open>crawl\<close>, which runs after the database is initialized and
  before any worker starts. \<open>normalize_url\<close> is called outside any \<open>try\<close>, so
  its exception ends \<open>crawl\<close>. There is no membership test before the \<open>put\<close>.
\<close>

fun seed_queue ::
  "host_check \<Rightarrow> CrawlerConfig \<Rightarrow> string list \<Rightarrow> crawler_state
     \<Rightarrow> py_exception + crawler_state" where
  "seed_queue hc config [] s = Inr s"
| "seed_queue hc config (u # rest) s =
     (case normalize_url hc u of
        Inl e \<Rightarrow> Inl e
      | Inr normalized_url \<Rightarrow>
          seed_queue hc config rest
            (if is_valid_url hc config normalized_url None
             then queue_put (normalized_url, 0)
                    (s\<lparr>queued_urls := insert normalized_url (queued_urls s)\<rparr>)
             else s))"

definition crawl_seed ::
  "host_check \<Rightarrow> CrawlerConfig \<Rightarrow> string list \<Rightarrow> py_exception + crawler_state" where
  "crawl_seed hc config seed_urls = seed_queue hc config seed_urls init_state"

subsection \<open>fetch_url\<close>

text \<open>
  What the network and the HTML parser answer is the environment's choice. A response
  carries its status, its content-type header (if any) and what
  \<open>await response.text()\<close> gives: an exception, or the page, of which the crawler
  uses \<open>extract_title(html)\<close>, \<open>extract_links(html, url)\<close> and \<open>len(html)\<close>.
  \<open>gate_allows\<close> is the answer of \<open>robots_checker.can_fetch\<close>, \<open>clock\<close> the reading
  of \<open>time.time()\<close>.
\<close>

record html_page =
  page_title :: string
  page_links :: "string list"
  page_length :: int

record http_response =
  status :: int
  content_type_header :: "string option"
  text_result :: "py_exception + html_page"

datatype get_event = GetRaised py_exception | GetResponse http_response

record fetch_env =
  gate_allows :: bool
  get_result :: get_event
  clock :: real

text \<open>The two \<open>except\<close> clauses of \<open>fetch_url\<close>.\<close>

definition failure_result :: "string \<Rightarrow> real \<Rightarrow> py_exception \<Rightarrow> CrawlResult" where
  "failure_result u now e =
     \<lparr>url = u, status_code = 0, title = [], content_length = 0, links = [],
      timestamp = now,
      error = Some (case e of TimeoutError \<Rightarrow> ''Timeout'' | _ \<Rightarrow> exception_str e)\<rparr>"

text \<open>The loop over the extracted links (lines 225-231).\<close>

fun enqueue_links ::
  "host_check \<Rightarrow> CrawlerConfig \<Rightarrow> string option \<Rightarrow> int \<Rightarrow> string list
     \<Rightarrow> crawler_state \<Rightarrow> crawler_state" where
  "enqueue_links hc config base_domain depth [] s = s"
| "enqueue_links hc config base_domain depth (link # rest) s =
     enqueue_links hc config base_domain depth rest
       (if link \<notin> visited_urls s \<and> link \<notin> queued_urls s
           \<and> is_valid_url hc config link base_domain
        then queue_put (link, depth + 1) (s\<lparr>queued_urls := insert link (queued_urls s)\<rparr>)
        else s)"

definition fetch_url ::
  "host_check \<Rightarrow> CrawlerConfig \<Rightarrow> 'a fetch_env_scheme \<Rightarrow> string \<Rightarrow> int \<Rightarrow> crawler_state
     \<Rightarrow> CrawlResult option \<times> crawler_state" where
  "fetch_url hc config env u depth s =
     (if \<not> gate_allows env
      then (None, s\<lparr>robots_blocked := robots_blocked s + 1\<rparr>)
      else
        (case get_result env of
           GetRaised e \<Rightarrow> (Some (failure_result u (clock env) e), s)
         | GetResponse response \<Rightarrow>
             (if \<not> str_contains ''text/html''
                    (lower (case content_type_header response of
                              None \<Rightarrow> [] | Some h \<Rightarrow> h))
              then (Some \<lparr>url = u, status_code = status response, title = [],
                          content_length = 0, links = [], timestamp = clock env,
                          error = None\<rparr>, s)
              else
                (case text_result response of
                   Inl e \<Rightarrow> (Some (failure_result u (clock env) e), s)
                 | Inr page \<Rightarrow>
                     (case (if depth < max_depth config
                            then (case (if stay_in_domain config
                                        then map_sum id (\<lambda>parsed. Some (netloc parsed))
                                               (urlparse hc u)
                                        else Inr None) of
                                    Inl e \<Rightarrow> Inl e
                                  | Inr base_domain \<Rightarrow>
                                      Inr (enqueue_links hc config base_domain depth
                                             (page_links page) s))
                            else Inr s) of
                        Inl e \<Rightarrow> (Some (failure_result u (clock env) e), s)
                      | Inr s1 \<Rightarrow>
                          (Some \<lparr>url = u, status_code = status response,
                                 title = page_title page,
                                 content_length = page_length page,
                                 links = page_links page, timestamp = clock env,
                                 error = None\<rparr>, s1))))))"

subsection \<open>One iteration of a worker's loop\<close>

datatype control = LoopContinue | LoopBreak

datatype dequeued = QueueTimeout | AlreadyVisited | Crawling string int

text \<open>
  \<open>wait_for(url_queue.get(), 5.0)\<close> and the visited test: the wait times out when the
  queue stays empty.
\<close>

definition worker_dequeue :: "crawler_state \<Rightarrow> dequeued \<times> crawler_state" where
  "worker_dequeue s =
     (case url_queue s of
        [] \<Rightarrow> (QueueTimeout, s)
      | (u, d) # rest \<Rightarrow>
          if u \<in> visited_urls s then (AlreadyVisited, s\<lparr>url_queue := rest\<rparr>)
          else (Crawling u d,
                s\<lparr>url_queue := rest, visited_urls := insert u (visited_urls s)\<rparr>))"

text \<open>
  Lines 273-294 for a result that is not \<open>None\<close>. \<open>store_page\<close> catches every
  \<open>Exception\<close> itself, so it never raises into the worker.
\<close>

definition worker_account ::
  "CrawlerConfig \<Rightarrow> CrawlResult \<Rightarrow> crawler_state \<Rightarrow> control \<times> crawler_state" where
  "worker_account config result s =
     (let s1 = s\<lparr>stored_pages := stored_pages s @ [result]\<rparr>;
          s2 = (if status_code result = 200
                then s1\<lparr>successful := successful s1 + 1\<rparr>
                else s1\<lparr>failed := failed s1 + 1\<rparr>);
          s3 = s2\<lparr>total_crawled := total_crawled s2 + 1\<rparr>
      in (if max_pages config > 0 \<and> total_crawled s3 \<ge> max_pages config
          then LoopBreak else LoopContinue, s3))"

text \<open>
  \<open>fetch_url\<close> and \<open>store_page\<close> catch their own exceptions, so the only
  \<open>TimeoutError\<close> that reaches the worker's handlers is the one of \<open>wait_for\<close>.
  \<open>body_fault\<close> stands for any other \<open>Exception\<close> raised by a statement of the loop
  body, before or after the fetch; the handler logs it and the loop goes on.
\<close>

datatype worker_fault = NoFault | FaultBeforeFetch string | FaultAfterFetch string

record iteration_env = fetch_env +
  body_fault :: worker_fault

definition log_worker_error :: "string \<Rightarrow> crawler_state \<Rightarrow> crawler_state" where
  "log_worker_error m s = s\<lparr>worker_errors := worker_errors s @ [m]\<rparr>"

definition worker_iteration ::
  "host_check \<Rightarrow> CrawlerConfig \<Rightarrow> iteration_env \<Rightarrow> crawler_state
     \<Rightarrow> control \<times> crawler_state" where
  "worker_iteration hc config env s =
     (case worker_dequeue s of
        (QueueTimeout, s1) \<Rightarrow> (LoopBreak, s1)
      | (AlreadyVisited, s1) \<Rightarrow> (LoopContinue, s1)
      | (Crawling u d, s1) \<Rightarrow>
          (case body_fault env of
             FaultBeforeFetch m \<Rightarrow> (LoopContinue, log_worker_error m s1)
           | _ \<Rightarrow>
             (case fetch_url hc config env u d s1 of
                (None, s2) \<Rightarrow> (LoopContinue, s2)
              | (Some result, s2) \<Rightarrow>
                  (case body_fault env of
                     FaultAfterFetch m \<Rightarrow> (LoopContinue, log_worker_error m s2)
                   | _ \<Rightarrow> worker_account config result s2))))"

text \<open>
  The \<open>while True\<close> loop, one environment answer per iteration. \<open>LoopContinue\<close> as the
  result says that the worker is still running when the answers are used up.
\<close>

fun worker ::
  "host_check \<Rightarrow> CrawlerConfig \<Rightarrow> iteration_env list \<Rightarrow> crawler_state
     \<Rightarrow> control \<times> crawler_state" where
  "worker hc config [] s = (LoopContinue, s)"
| "worker hc config (env # envs) s =
     (case worker_iteration hc config env s of
        (LoopBreak, s1) \<Rightarrow> (LoopBreak, s1)
      | (LoopContinue, s1) \<Rightarrow> worker hc config envs s1)"

subsection \<open>Several workers on one event loop\<close>

text \<open>
  Workers interleave at their \<open>await\<close>s only. Between two awaits a worker does one of
  three things to the shared state: it dequeues a task and marks it visited; it ends
  \<open>fetch_url\<close> (counting a blocked URL, or admitting the links of a page); it counts a
  stored result. \<open>in_fetch\<close> holds the tasks that are inside \<open>fetch_url\<close>,
  \<open>in_store\<close> the results that are inside \<open>store_page\<close>. Any number of workers
  may be running, and a faulting iteration drops its task or result. The relation
  allows every schedule of the event loop and every answer of the environment, so
  what holds in all reachable states holds in every run.
\<close>

record system =
  shared :: crawler_state
  in_fetch :: "(string \<times> int) list"
  in_store :: "CrawlResult list"

inductive reachable ::
  "host_check \<Rightarrow> CrawlerConfig \<Rightarrow> string list \<Rightarrow> system \<Rightarrow> bool"
  for hc :: host_check and config :: CrawlerConfig and seed_urls :: "string list" where
  seeded:
    "crawl_seed hc config seed_urls = Inr s
     \<Longrightarrow> reachable hc config seed_urls \<lparr>shared = s, in_fetch = [], in_store = []\<rparr>"
| dequeue_skip:
    "reachable hc config seed_urls sys
     \<Longrightarrow> worker_dequeue (shared sys) = (AlreadyVisited, s)
     \<Longrightarrow> reachable hc config seed_urls (sys\<lparr>shared := s\<rparr>)"
| dequeue_task:
    "reachable hc config seed_urls sys
     \<Longrightarrow> worker_dequeue (shared sys) = (Crawling u d, s)
     \<Longrightarrow> reachable hc config seed_urls (sys\<lparr>shared := s, in_fetch := (u, d) # in_fetch sys\<rparr>)"
| fetch_done:
    "reachable hc config seed_urls sys
     \<Longrightarrow> (u, d) \<in> set (in_fetch sys)
     \<Longrightarrow> fetch_url hc config (env :: fetch_env) u d (shared sys) = (r, s)
     \<Longrightarrow> reachable hc config seed_urls
           (sys\<lparr>shared := s, in_fetch := remove1 (u, d) (in_fetch sys),
                in_store := (case r of None \<Rightarrow> in_store sys | Some x \<Rightarrow> x # in_store sys)\<rparr>)"
| store_done:
    "reachable hc config seed_urls sys
     \<Longrightarrow> r \<in> set (in_store sys)
     \<Longrightarrow> worker_account config r (shared sys) = (c, s)
     \<Longrightarrow> reachable hc config seed_urls (sys\<lparr>shared := s, in_store := remove1 r (in_store sys)\<rparr>)"
| fetch_fault:
    "reachable hc config seed_urls sys
     \<Longrightarrow> reachable hc config seed_urls
           (sys\<lparr>shared := log_worker_error m (shared sys),
                in_fetch := remove1 t (in_fetch sys)\<rparr>)"
| store_fault:
    "reachable hc config seed_urls sys
     \<Longrightarrow> reachable hc config seed_urls
           (sys\<lparr>shared := log_worker_error m (shared sys),
                in_store := remove1 r (in_store sys)\<rparr>)"

section \<open>The politeness gate (RobotsChecker.can_fetch)\<close>

text \<open>
  \<open>urllib.robotparser.RobotFileParser\<close>: the names an instance answers to are the
  attributes set by \<open>__init__\<close> and \<open>set_url\<close> and the methods of the class.
  Asking for any other name raises \<open>AttributeError\<close>.
\<close>

definition RobotFileParser_attributes :: "string list" where
  "RobotFileParser_attributes =
     [''entries'', ''sitemaps'', ''default_entry'', ''disallow_all'', ''allow_all'',
      ''url'', ''host'', ''path'', ''last_checked'',
      ''mtime'', ''modified'', ''set_url'', ''read'', ''_add_entry'', ''parse'',
      ''can_fetch'', ''crawl_delay'', ''request_rate'', ''site_maps'', ''__str__'']"

text \<open>
  The parsed rules of an instance are kept as the decision they give
  (\<open>rules_allow useragent url\<close>); only \<open>parse\<close> and \<open>read\<close> change them, and the
  crawler calls neither.
\<close>

record RobotFileParser =
  rp_url :: string
  rp_host :: string
  rp_path :: string
  disallow_all :: bool
  allow_all :: bool
  last_checked :: real
  rules_allow :: "string \<Rightarrow> string \<Rightarrow> bool"

definition new_RobotFileParser :: RobotFileParser where
  "new_RobotFileParser =
     \<lparr>rp_url = [], rp_host = [], rp_path = [], disallow_all = False,
      allow_all = False, last_checked = 0, rules_allow = (\<lambda>useragent u. True)\<rparr>"

text \<open>
  A method call returns the exception it raised, if any, and the object as the call
  left it.
\<close>

definition rp_set_url ::
  "host_check \<Rightarrow> string \<Rightarrow> RobotFileParser \<Rightarrow> py_exception option \<times> RobotFileParser" where
  "rp_set_url hc u rp =
     (case urlparse hc u of
        Inl e \<Rightarrow> (Some e, rp\<lparr>rp_url := u\<rparr>)
      | Inr parsed \<Rightarrow>
          (None, rp\<lparr>rp_url := u, rp_host := netloc parsed, rp_path := path parsed\<rparr>))"

text \<open>
  \<open>rp.feed(content)\<close>: the attribute lookup comes first, and \<open>feed\<close> is not a name
  of the class.
\<close>

definition rp_feed ::
  "string \<Rightarrow> RobotFileParser \<Rightarrow> py_exception option \<times> RobotFileParser" where
  "rp_feed content rp =
     (if ''feed'' \<in> set RobotFileParser_attributes then (None, rp)
      else (Some (AttributeError
              ([CHR 0x27] @ ''RobotFileParser'' @ [CHR 0x27] @ '' object has no attribute ''
               @ [CHR 0x27] @ ''feed'' @ [CHR 0x27])), rp))"

definition rp_can_fetch :: "RobotFileParser \<Rightarrow> string \<Rightarrow> string \<Rightarrow> bool" where
  "rp_can_fetch rp useragent u =
     (if disallow_all rp then False
      else if allow_all rp then True
      else if last_checked rp = 0 then False
      else rules_allow rp useragent u)"

text \<open>\<open>rp.set_url(robots_url); rp.feed(content)\<close>.\<close>

definition set_url_then_feed ::
  "host_check \<Rightarrow> string \<Rightarrow> string \<Rightarrow> RobotFileParser
     \<Rightarrow> py_exception option \<times> RobotFileParser" where
  "set_url_then_feed hc robots_url content rp =
     (case rp_set_url hc robots_url rp of
        (Some e, rp1) \<Rightarrow> (Some e, rp1)
      | (None, rp1) \<Rightarrow> rp_feed content rp1)"

text \<open>
  The checker's state: the cache, the user agent, and as a history variable the
  robots URLs requested from the network. The answer of the network to
  \<open>session.get(robots_url)\<close> is the environment's: an exception (network error,
  timeout) or a response with its status and what \<open>await response.text()\<close> gives.
  \<open>urljoin\<close> is the standard library's; \<open>can_fetch\<close> is modelled for every such
  function.
\<close>

record RobotsChecker =
  robots_cache :: "string \<rightharpoonup> RobotFileParser"
  user_agent :: string
  robots_requests :: "string list"

definition new_RobotsChecker :: RobotsChecker where
  "new_RobotsChecker =
     \<lparr>robots_cache = Map.empty, user_agent = ''NautalisBot/1.0'', robots_requests = []\<rparr>"

record robots_response =
  robots_status :: int
  robots_text :: "py_exception + string"

text \<open>Lines 46-64: fetch the robots file of a domain that is not cached.\<close>

definition load_robots ::
  "host_check \<Rightarrow> (string \<Rightarrow> string \<Rightarrow> py_exception + string)
     \<Rightarrow> py_exception + robots_response \<Rightarrow> string \<Rightarrow> RobotsChecker
     \<Rightarrow> py_exception option \<times> RobotsChecker" where
  "load_robots hc urljoin answer domain rc =
     (case urljoin domain ''/robots.txt'' of
        Inl e \<Rightarrow> (Some e, rc)
      | Inr robots_url \<Rightarrow>
          (let rc1 = rc\<lparr>robots_requests := robots_requests rc @ [robots_url]\<rparr>;
               rp = new_RobotFileParser;
               attempt =
                 (case answer of
                    Inl e \<Rightarrow> (Some e, rp)
                  | Inr response \<Rightarrow>
                      (if robots_status response = 200
                       then (case robots_text response of
                               Inl e \<Rightarrow> (Some e, rp)
                             | Inr robots_content \<Rightarrow>
                                 set_url_then_feed hc robots_url robots_content rp)
                       else set_url_then_feed hc robots_url [] rp));
               handled =
                 (case attempt of
                    (None, rp1) \<Rightarrow> (None, rp1)
                  | (Some e, rp1) \<Rightarrow> set_url_then_feed hc robots_url [] rp1)
           in case handled of
                (Some e, rp2) \<Rightarrow> (Some e, rc1)
              | (None, rp2) \<Rightarrow>
                  (None, rc1\<lparr>robots_cache := (robots_cache rc1)(domain \<mapsto> rp2)\<rparr>)))"

text \<open>
  \<open>can_fetch\<close>: every exception of the body ends in the outer handler, which
  returns \<open>True\<close>.
\<close>

definition can_fetch ::
  "host_check \<Rightarrow> (string \<Rightarrow> string \<Rightarrow> py_exception + string)
     \<Rightarrow> py_exception + robots_response \<Rightarrow> string \<Rightarrow> RobotsChecker
     \<Rightarrow> bool \<times> RobotsChecker" where
  "can_fetch hc urljoin answer u rc =
     (case urlparse hc u of
        Inl e \<Rightarrow> (True, rc)
      | Inr parsed \<Rightarrow>
          (let domain = scheme parsed @ ''://'' @ netloc parsed
           in case (if domain \<in> dom (robots_cache rc) then (None, rc)
                    else load_robots hc urljoin answer domain rc) of
                (Some e, rc1) \<Rightarrow> (True, rc1)
              | (None, rc1) \<Rightarrow>
                  (case robots_cache rc1 domain of
                     None \<Rightarrow> (True, rc1)
                   | Some rp \<Rightarrow> (rp_can_fetch rp (user_agent rc1) u, rc1))))"

section \<open>Predicates used in the statements\<close>

text \<open>
  A fetch attempt raises \<open>e\<close>: \<open>session.get\<close> raises it, or the response is HTML and
  \<open>await response.text()\<close> raises it. Both stand inside the \<open>try\<close> of \<open>fetch_url\<close>.
\<close>

definition fetch_raises :: "'a fetch_env_scheme \<Rightarrow> py_exception \<Rightarrow> bool" where
  "fetch_raises env e =
     (case get_result env of
        GetRaised x \<Rightarrow> x = e
      | GetResponse response \<Rightarrow>
          str_contains ''text/html''
            (lower (case content_type_header response of None \<Rightarrow> [] | Some h \<Rightarrow> h))
          \<and> text_result response = Inl e)"

text \<open>The test of lines 292-293.\<close>

definition budget_reached :: "CrawlerConfig \<Rightarrow> crawler_state \<Rightarrow> bool" where
  "budget_reached config s = (max_pages config > 0 \<and> total_crawled s \<ge> max_pages config)"

text \<open>The lower-cased host part of a URL, \<open>None\<close> when the URL does not parse.\<close>

definition url_host :: "host_check \<Rightarrow> string \<Rightarrow> string option" where
  "url_host hc u =
     (case urlparse hc u of Inl e \<Rightarrow> None | Inr parsed \<Rightarrow> Some (lower (netloc parsed)))"

text \<open>Every task ever put on the queue has a depth of at most \<open>max_depth\<close>.\<close>

definition depth_bounded :: "CrawlerConfig \<Rightarrow> crawler_state \<Rightarrow> bool" where
  "depth_bounded config s = list_all (\<lambda>t. snd t \<le> max_depth config) (put_log s)"

text \<open>
  \<open>u\<close> has the host of a seed task: of some seed whose normalized form passed
  \<open>is_valid_url\<close> and was put on the queue.
\<close>

definition has_seed_host ::
  "host_check \<Rightarrow> CrawlerConfig \<Rightarrow> string list \<Rightarrow> string \<Rightarrow> bool" where
  "has_seed_host hc config seed_urls u =
     list_ex (\<lambda>sd. case normalize_url hc sd of
                      Inl e \<Rightarrow> False
                    | Inr n \<Rightarrow> is_valid_url hc config n None
                               \<and> url_host hc u = url_host hc n)
       seed_urls"

definition in_scope ::
  "host_check \<Rightarrow> CrawlerConfig \<Rightarrow> string list \<Rightarrow> string \<times> int \<Rightarrow> bool" where
  "in_scope hc config seed_urls t =
     (is_valid_url hc config (fst t) None \<and> has_seed_host hc config seed_urls (fst t))"


definition plain_host :: "string \<Rightarrow> bool" where
  "plain_host n = list_all (\<lambda>c. c \<notin> set ''/?#[]'') n"

text \<open>A host part, with or without brackets: any text without the delimiters \<open>/?#\<close>.\<close>

definition host_part :: "string \<Rightarrow> bool" where
  "host_part n = list_all (\<lambda>c. c \<notin> set netloc_delims) n"



text \<open>
  No URL has been put on the queue twice, and every URL put on the queue is in
  \<open>queued_urls\<close>.
\<close>

definition admitted_once :: "crawler_state \<Rightarrow> bool" where
  "admitted_once s =
     (distinct (map fst (put_log s)) \<and> list_all (\<lambda>t. fst t \<in> queued_urls s) (put_log s))"

section \<open>Evaluation and frame lemmas\<close>

lemmas url_eval =
  urlparse_def urlsplit_def split_scheme_def remove_unsafe_def lstrip_c0_def
  unsafe_bytes_def is_ascii_alpha_def ascii_letters_def scheme_chars_def lower_def
  lower_char_def splitnetloc_def netloc_delims_def netloc_error_def split_tail_def
  split_once_def uses_params_def uses_netloc_def splitparams_def urlunparse_def
  urlunsplit_def Let_def

lemmas crawl_eval =
  crawl_seed_def init_state_def queue_put_def normalize_url_def is_valid_url_def
  skip_extensions_def suffix_to_prefix

lemma enqueue_links_frame:
  "visited_urls (enqueue_links hc config b d ls s) = visited_urls s \<and>
   total_crawled (enqueue_links hc config b d ls s) = total_crawled s \<and>
   successful (enqueue_links hc config b d ls s) = successful s \<and>
   failed (enqueue_links hc config b d ls s) = failed s \<and>
   robots_blocked (enqueue_links hc config b d ls s) = robots_blocked s \<and>
   stored_pages (enqueue_links hc config b d ls s) = stored_pages s \<and>
   worker_errors (enqueue_links hc config b d ls s) = worker_errors s"
  by (induction ls arbitrary: s) (simp_all add: queue_put_def)

lemma fetch_url_counters:
  assumes "fetch_url hc config env u d s = (r, s')"
  shows "total_crawled s' = total_crawled s \<and> successful s' = successful s
         \<and> failed s' = failed s \<and> visited_urls s' = visited_urls s
         \<and> stored_pages s' = stored_pages s \<and> worker_errors s' = worker_errors s"
  using assms
  by (auto simp: fetch_url_def enqueue_links_frame
           split: if_splits get_event.splits sum.splits)

lemma worker_account_counters:
  assumes "worker_account config r s = (c, s')"
  shows "total_crawled s' = total_crawled s + 1
       \<and> successful s' = successful s + (if status_code r = 200 then 1 else 0)
       \<and> failed s' = failed s + (if status_code r = 200 then 0 else 1)
       \<and> robots_blocked s' = robots_blocked s
       \<and> worker_errors s' = worker_errors s
       \<and> (c = LoopBreak \<longleftrightarrow> budget_reached config s')"
  using assms by (auto simp: worker_account_def budget_reached_def Let_def split: if_splits)

lemma fetch_url_raises:
  assumes "gate_allows env" and "fetch_raises env e"
  shows "fetch_url hc config env u depth s = (Some (failure_result u (clock env) e), s)"
  using assms by (auto simp: fetch_url_def fetch_raises_def split: get_event.splits)

section \<open>The normalizer is not total (C7)\<close>

text \<open>
  C7 says that \<open>normalize_url\<close> returns a string for every input string and never
  raises. On a URL whose host part opens a bracket and never closes it,
  \<open>urlparse\<close> raises \<open>ValueError\<close>, \<open>normalize_url\<close> passes the exception on, and
  \<open>crawl\<close>, which normalizes each seed before it validates it, ends with that
  exception. \<open>is_valid_url\<close> and \<open>can_fetch\<close> guard the same call with a handler.
\<close>

theorem normalize_url_raises_on_open_bracket:
  "normalize_url hc ''http://['' = Inl (ValueError ''Invalid IPv6 URL'')
   \<and> is_valid_url hc config ''http://['' None = False
   \<and> crawl_seed hc config [''http://[''] = Inl (ValueError ''Invalid IPv6 URL'')"
  by (simp add: crawl_eval url_eval)

section \<open>Seeds are queued without a membership test (C1)\<close>

text \<open>
  C1 says that a normalized URL is admitted to the queue at most once across the run,
  seeds included. The seed loop of \<open>crawl\<close> adds to \<open>queued_urls\<close> but never asks
  it: a seed given twice is put on the queue twice.
\<close>

theorem duplicate_seed_is_queued_twice:
  "crawl_seed hc config [''https://a.test/'', ''https://a.test/'']
     = Inr (init_state\<lparr>queued_urls := {''https://a.test/''},
              url_queue := [(''https://a.test/'', 0), (''https://a.test/'', 0)],
              put_log := [(''https://a.test/'', 0), (''https://a.test/'', 0)]\<rparr>)"
  by (simp add: crawl_eval url_eval)

section \<open>Responses that are not HTML (C8)\<close>

text \<open>
  C8: when the lower-cased content-type header of the response does not contain
  \<open>text/html\<close>, \<open>fetch_url\<close> returns a record with the response's status code, an
  empty title and no links, and leaves the shared state as it was: nothing is
  extracted and nothing is queued.
\<close>

theorem non_html_response_gives_bare_record:
  assumes "gate_allows env" and "get_result env = GetResponse response"
    and "\<not> str_contains ''text/html''
            (lower (case content_type_header response of None \<Rightarrow> [] | Some h \<Rightarrow> h))"
  shows "fetch_url hc config env u depth s =
           (Some \<lparr>url = u, status_code = status response, title = [], content_length = 0,
                   links = [], timestamp = clock env, error = None\<rparr>, s)"
  using assms by (simp add: fetch_url_def)

theorem non_html_response_gives_bare_record_witness:
  "\<not> str_contains ''text/html'' (lower ''Application/PDF'')
   \<and> fetch_url (\<lambda>_. None)
       \<lparr>max_depth = 3, max_pages = 1000, max_workers = 10, stay_in_domain = True\<rparr>
       \<lparr>gate_allows = True,
        get_result = GetResponse
          \<lparr>status = 404, content_type_header = Some ''Application/PDF'',
           text_result = Inr \<lparr>page_title = ''t'', page_links = [''https://a.test/x''],
                              page_length = 9\<rparr>\<rparr>,
        clock = 7\<rparr> ''https://a.test/doc'' 0 init_state
     = (Some \<lparr>url = ''https://a.test/doc'', status_code = 404, title = [],
               content_length = 0, links = [], timestamp = 7, error = None\<rparr>, init_state)"
proof -
  let ?r = "\<lparr>status = 404, content_type_header = Some ''Application/PDF'',
             text_result = Inr \<lparr>page_title = ''t'', page_links = [''https://a.test/x''],
                                page_length = 9\<rparr>\<rparr>"
  let ?env = "\<lparr>gate_allows = True, get_result = GetResponse ?r, clock = 7\<rparr>"
  have h1: "gate_allows ?env" by simp
  have h2: "get_result ?env = GetResponse ?r" by simp
  have h3: "\<not> str_contains ''text/html''
            (lower (case content_type_header ?r of None \<Rightarrow> [] | Some h \<Rightarrow> h))"
    by (simp add: str_contains_def lower_def lower_char_def)
  show ?thesis
    using non_html_response_gives_bare_record[OF h1 h2 h3] h3 by simp
qed

section \<open>Timeouts and other fetch failures (C5)\<close>

text \<open>
  C5: a fetch attempt that raises gives a record with status code 0 whose error is
  \<open>Timeout\<close> for a timeout and the exception's message otherwise. The worker
  iteration that dequeued the task stores that record, leaves \<open>successful\<close> as it
  was and adds exactly 1 to \<open>failed\<close>.
\<close>

theorem failed_fetch_is_recorded_and_counted:
  assumes "url_queue s = (u, d) # rest" and "u \<notin> visited_urls s"
    and "gate_allows env" and "fetch_raises env e" and "body_fault env = NoFault"
  shows "fetch_url hc config env u d s = (Some (failure_result u (clock env) e), s)
       \<and> status_code (failure_result u (clock env) e) = 0
       \<and> error (failure_result u (clock env) e)
           = Some (if e = TimeoutError then ''Timeout'' else exception_str e)
       \<and> stored_pages (snd (worker_iteration hc config env s))
           = stored_pages s @ [failure_result u (clock env) e]
       \<and> successful (snd (worker_iteration hc config env s)) = successful s
       \<and> failed (snd (worker_iteration hc config env s)) = failed s + 1"
proof -
  let ?s1 = "s\<lparr>url_queue := rest, visited_urls := insert u (visited_urls s)\<rparr>"
  have dq: "worker_dequeue s = (Crawling u d, ?s1)"
    using assms(1,2) by (simp add: worker_dequeue_def)
  have f: "\<And>t. fetch_url hc config env u d t = (Some (failure_result u (clock env) e), t)"
    using fetch_url_raises[OF assms(3,4)] by simp
  have it: "worker_iteration hc config env s
              = worker_account config (failure_result u (clock env) e) ?s1"
    using dq f[of ?s1] assms(5) by (simp add: worker_iteration_def)
  have st: "status_code (failure_result u (clock env) e) = 0"
    by (simp add: failure_result_def)
  have er: "error (failure_result u (clock env) e)
           = Some (if e = TimeoutError then ''Timeout'' else exception_str e)"
    by (cases e) (simp_all add: failure_result_def)
  show ?thesis
    using f[of s] st er it by (simp add: worker_account_def Let_def)
qed

theorem failed_fetch_is_recorded_and_counted_witness:
  "stored_pages (snd (worker_iteration (\<lambda>_. None)
       \<lparr>max_depth = 3, max_pages = 1000, max_workers = 10, stay_in_domain = True\<rparr>
       \<lparr>gate_allows = True, get_result = GetRaised TimeoutError, clock = 5,
        body_fault = NoFault\<rparr>
       (init_state\<lparr>url_queue := [(''https://a.test/'', 0)]\<rparr>)))
     = [\<lparr>url = ''https://a.test/'', status_code = 0, title = [], content_length = 0,
         links = [], timestamp = 5, error = Some ''Timeout''\<rparr>]
   \<and> successful (snd (worker_iteration (\<lambda>_. None)
       \<lparr>max_depth = 3, max_pages = 1000, max_workers = 10, stay_in_domain = True\<rparr>
       \<lparr>gate_allows = True, get_result = GetRaised TimeoutError, clock = 5,
        body_fault = NoFault\<rparr>
       (init_state\<lparr>url_queue := [(''https://a.test/'', 0)]\<rparr>))) = 0
   \<and> failed (snd (worker_iteration (\<lambda>_. None)
       \<lparr>max_depth = 3, max_pages = 1000, max_workers = 10, stay_in_domain = True\<rparr>
       \<lparr>gate_allows = True, get_result = GetRaised TimeoutError, clock = 5,
        body_fault = NoFault\<rparr>
       (init_state\<lparr>url_queue := [(''https://a.test/'', 0)]\<rparr>))) = 1"
proof -
  let ?s = "init_state\<lparr>url_queue := [(''https://a.test/'', 0)]\<rparr>"
  let ?env = "\<lparr>gate_allows = True, get_result = GetRaised TimeoutError, clock = 5,
               body_fault = NoFault\<rparr>"
  have h1: "url_queue ?s = (''https://a.test/'', 0) # []" by simp
  have h2: "''https://a.test/'' \<notin> visited_urls ?s" by (simp add: init_state_def)
  have h3: "gate_allows ?env" by simp
  have h4: "fetch_raises ?env TimeoutError" by (simp add: fetch_raises_def)
  have h5: "body_fault ?env = NoFault" by simp
  show ?thesis
    using failed_fetch_is_recorded_and_counted[OF h1 h2 h3 h4 h5]
    by (simp add: failure_result_def init_state_def)
qed

section \<open>The counters add up (C10)\<close>

lemma seed_queue_counters:
  "seed_queue hc config seeds s = Inr s' \<Longrightarrow>
     total_crawled s' = total_crawled s \<and> successful s' = successful s
     \<and> failed s' = failed s"
  by (induction seeds arbitrary: s) (auto simp: queue_put_def split: sum.splits if_splits)

lemma worker_dequeue_frame:
  assumes "worker_dequeue s = (q, s')"
  shows "put_log s' = put_log s \<and> set (url_queue s') \<subseteq> set (url_queue s)
         \<and> queued_urls s' = queued_urls s
         \<and> total_crawled s' = total_crawled s \<and> successful s' = successful s
         \<and> failed s' = failed s \<and> robots_blocked s' = robots_blocked s
         \<and> worker_errors s' = worker_errors s
         \<and> (\<forall>u d. q = Crawling u d \<longrightarrow> (u, d) \<in> set (url_queue s))"
  using assms by (auto simp: worker_dequeue_def split: list.splits if_splits)

lemma reachable_counters:
  "reachable hc config seeds sys \<Longrightarrow>
     total_crawled (shared sys) = successful (shared sys) + failed (shared sys)"
proof (induction rule: reachable.induct)
  case (seeded s)
  then show ?case using seed_queue_counters[of hc config seeds init_state s]
    by (simp add: crawl_seed_def init_state_def)
next
  case (dequeue_skip sys s)
  then show ?case using worker_dequeue_frame[OF dequeue_skip.hyps(2)] by simp
next
  case (dequeue_task sys u d s)
  then show ?case using worker_dequeue_frame[OF dequeue_task.hyps(2)] by simp
next
  case (fetch_done sys u d env r s)
  then show ?case using fetch_url_counters[of hc config env u d "shared sys" r s] by simp
next
  case (store_done sys r c s)
  then show ?case
    using worker_account_counters[of config r "shared sys" c s] by (simp split: if_splits)
next
  case (fetch_fault sys t m)
  then show ?case by (simp add: log_worker_error_def)
next
  case (store_fault sys r m)
  then show ?case by (simp add: log_worker_error_def)
qed

lemma worker_iteration_keeps_sum:
  assumes "total_crawled s = successful s + failed s"
  shows "total_crawled (snd (worker_iteration hc config env s))
           = successful (snd (worker_iteration hc config env s))
             + failed (snd (worker_iteration hc config env s))"
proof (cases "worker_dequeue s")
  case (Pair q s1)
  note dq = worker_dequeue_frame[OF Pair]
  show ?thesis
  proof (cases q)
    case QueueTimeout
    then show ?thesis using Pair dq assms by (simp add: worker_iteration_def)
  next
    case AlreadyVisited
    then show ?thesis using Pair dq assms by (simp add: worker_iteration_def)
  next
    case (Crawling u d)
    obtain r s2 where f: "fetch_url hc config env u d s1 = (r, s2)"
      by (cases "fetch_url hc config env u d s1")
    note fc = fetch_url_counters[OF f]
    show ?thesis
    proof (cases r)
      case None
      then show ?thesis using Pair Crawling f fc dq assms
        by (simp add: worker_iteration_def log_worker_error_def split: worker_fault.splits)
    next
      case (Some res)
      obtain c s3 where a: "worker_account config res s2 = (c, s3)"
        by (cases "worker_account config res s2")
      note ac = worker_account_counters[OF a]
      show ?thesis using Pair Crawling f fc dq assms Some a ac
        by (simp add: worker_iteration_def log_worker_error_def split: worker_fault.splits)
    qed
  qed
qed

lemma fetch_url_result_unblocked:
  assumes "fetch_url hc config env u d s = (Some r, s')"
  shows "robots_blocked s' = robots_blocked s"
  using assms
  by (auto simp: fetch_url_def enqueue_links_frame
           split: if_splits get_event.splits sum.splits)

text \<open>
  C10: in every state that any interleaving of workers reaches, and after every
  iteration of a worker that starts from such a state, \<open>total_crawled\<close> is the sum of
  \<open>successful\<close> and \<open>failed\<close>. Counting a result, in whatever state the other
  workers have left, appends it to the stored pages and adds 1 to \<open>total_crawled\<close>
  and 1 to \<open>successful\<close> when the status code is 200, to \<open>failed\<close> otherwise.
  An iteration whose fetch produces a record ends in the state the fetch left,
  with that record stored, \<open>total_crawled\<close> one higher, \<open>successful\<close> one higher
  exactly when the status code is 200, \<open>failed\<close> one higher otherwise, and
  \<open>robots_blocked\<close> as it was. An iteration whose fetch the politeness gate
  denies goes on, and its whole effect on the state is the task taken from the
  queue, the URL marked visited and \<open>robots_blocked\<close> one higher: no counter
  of results moves and nothing is stored. (With this repository's \<open>can_fetch\<close>
  the denial never happens, see C3; the statement is about the worker for any answer
  of \<open>can_fetch\<close>.)
\<close>

theorem stats_sum_invariant:
  "(reachable hc config seed_urls sys \<longrightarrow>
      total_crawled (shared sys) = successful (shared sys) + failed (shared sys))
   \<and> (total_crawled s = successful s + failed s \<longrightarrow>
      total_crawled (snd (worker_iteration hc config ienv s))
        = successful (snd (worker_iteration hc config ienv s))
          + failed (snd (worker_iteration hc config ienv s)))
   \<and> snd (worker_account config r s)
       = (if status_code r = 200
          then s\<lparr>stored_pages := stored_pages s @ [r], successful := successful s + 1,
                 total_crawled := total_crawled s + 1\<rparr>
          else s\<lparr>stored_pages := stored_pages s @ [r], failed := failed s + 1,
                 total_crawled := total_crawled s + 1\<rparr>)
   \<and> (url_queue s = (u, d) # rest \<and> u \<notin> visited_urls s \<and> body_fault ienv = NoFault
       \<and> fetch_url hc config ienv u d
            (s\<lparr>url_queue := rest, visited_urls := insert u (visited_urls s)\<rparr>) = (Some r, s2)
      \<longrightarrow> snd (worker_iteration hc config ienv s)
            = s2\<lparr>stored_pages := stored_pages s @ [r],
                 successful := successful s + (if status_code r = 200 then 1 else 0),
                 failed := failed s + (if status_code r = 200 then 0 else 1),
                 total_crawled := total_crawled s + 1\<rparr>
          \<and> robots_blocked s2 = robots_blocked s)
   \<and> (url_queue s = (u, d) # rest \<and> u \<notin> visited_urls s \<and> \<not> gate_allows ienv
       \<and> (\<forall>m. body_fault ienv \<noteq> FaultBeforeFetch m)
      \<longrightarrow> worker_iteration hc config ienv s
            = (LoopContinue,
               s\<lparr>url_queue := rest, visited_urls := insert u (visited_urls s),
                 robots_blocked := robots_blocked s + 1\<rparr>))
   \<and> (\<not> gate_allows env \<longrightarrow>
        fetch_url hc config env u d s
          = (None, s\<lparr>robots_blocked := robots_blocked s + 1\<rparr>))"
proof -
  have c4: "snd (worker_iteration hc config ienv s)
            = s2\<lparr>stored_pages := stored_pages s @ [r],
                 successful := successful s + (if status_code r = 200 then 1 else 0),
                 failed := failed s + (if status_code r = 200 then 0 else 1),
                 total_crawled := total_crawled s + 1\<rparr>
          \<and> robots_blocked s2 = robots_blocked s"
    if q: "url_queue s = (u, d) # rest" and v: "u \<notin> visited_urls s"
      and nf: "body_fault ienv = NoFault"
      and f: "fetch_url hc config ienv u d
            (s\<lparr>url_queue := rest, visited_urls := insert u (visited_urls s)\<rparr>) = (Some r, s2)"
  proof -
    have fc: "total_crawled s2 = total_crawled s" "successful s2 = successful s"
      "failed s2 = failed s" "stored_pages s2 = stored_pages s"
      using fetch_url_counters[OF f] by simp_all
    have rb: "robots_blocked s2 = robots_blocked s"
      using fetch_url_result_unblocked[OF f] by simp
    have "worker_iteration hc config ienv s = worker_account config r s2"
      using q v nf f by (simp add: worker_iteration_def worker_dequeue_def)
    then show ?thesis using fc rb by (simp add: worker_account_def Let_def)
  qed
  have c5: "worker_iteration hc config ienv s
            = (LoopContinue,
               s\<lparr>url_queue := rest, visited_urls := insert u (visited_urls s),
                 robots_blocked := robots_blocked s + 1\<rparr>)"
    if "url_queue s = (u, d) # rest" and "u \<notin> visited_urls s" and "\<not> gate_allows ienv"
      and "\<forall>m. body_fault ienv \<noteq> FaultBeforeFetch m"
    using that
    by (simp add: worker_iteration_def worker_dequeue_def fetch_url_def
             split: worker_fault.splits)
  show ?thesis
    using reachable_counters[of hc config seed_urls sys]
          worker_iteration_keeps_sum[of s hc config ienv] c4 c5
    by (simp add: worker_account_def Let_def fetch_url_def)
qed


theorem stats_sum_invariant_witness:
  "reachable (\<lambda>_. None)
     \<lparr>max_depth = 3, max_pages = 1000, max_workers = 10, stay_in_domain = True\<rparr>
     [''https://a.test/'']
     \<lparr>shared = init_state\<lparr>queued_urls := {''https://a.test/''},
                  url_queue := [(''https://a.test/'', 0)],
                  put_log := [(''https://a.test/'', 0)]\<rparr>,
      in_fetch = [], in_store = []\<rparr>
   \<and> snd (worker_iteration (\<lambda>_. None)
        \<lparr>max_depth = 3, max_pages = 1000, max_workers = 10, stay_in_domain = True\<rparr>
        \<lparr>gate_allows = True,
         get_result = GetResponse
           \<lparr>status = 200, content_type_header = Some ''text/html; charset=utf-8'',
            text_result = Inr \<lparr>page_title = ''A'', page_links = [''https://a.test/x''],
                               page_length = 120\<rparr>\<rparr>,
         clock = 1, body_fault = NoFault\<rparr>
        (init_state\<lparr>queued_urls := {''https://a.test/''},
                  url_queue := [(''https://a.test/'', 0)],
                  put_log := [(''https://a.test/'', 0)]\<rparr>))
     = \<lparr>visited_urls = {''https://a.test/''},
        queued_urls = {''https://a.test/'', ''https://a.test/x''},
        url_queue = [(''https://a.test/x'', 1)],
        total_crawled = 1, successful = 1, failed = 0, robots_blocked = 0,
        put_log = [(''https://a.test/'', 0), (''https://a.test/x'', 1)],
        stored_pages = [\<lparr>url = ''https://a.test/'', status_code = 200, title = ''A'',
                          content_length = 120, links = [''https://a.test/x''],
                          timestamp = 1, error = None\<rparr>],
        worker_errors = []\<rparr>
   \<and> snd (worker_iteration (\<lambda>_. None)
        \<lparr>max_depth = 3, max_pages = 1000, max_workers = 10, stay_in_domain = True\<rparr>
        \<lparr>gate_allows = True,
         get_result = GetResponse
           \<lparr>status = 404, content_type_header = Some ''text/plain'',
            text_result = Inr \<lparr>page_title = [], page_links = [], page_length = 0\<rparr>\<rparr>,
         clock = 1, body_fault = NoFault\<rparr>
        (init_state\<lparr>queued_urls := {''https://a.test/''},
                  url_queue := [(''https://a.test/'', 0)],
                  put_log := [(''https://a.test/'', 0)]\<rparr>))
     = \<lparr>visited_urls = {''https://a.test/''},
        queued_urls = {''https://a.test/''},
        url_queue = [],
        total_crawled = 1, successful = 0, failed = 1, robots_blocked = 0,
        put_log = [(''https://a.test/'', 0)],
        stored_pages = [\<lparr>url = ''https://a.test/'', status_code = 404, title = [],
                          content_length = 0, links = [],
                          timestamp = 1, error = None\<rparr>],
        worker_errors = []\<rparr>
   \<and> worker_iteration (\<lambda>_. None)
        \<lparr>max_depth = 3, max_pages = 1000, max_workers = 10, stay_in_domain = True\<rparr>
        \<lparr>gate_allows = False, get_result = GetRaised TimeoutError, clock = 1,
         body_fault = NoFault\<rparr>
        (init_state\<lparr>queued_urls := {''https://a.test/''},
                  url_queue := [(''https://a.test/'', 0)],
                  put_log := [(''https://a.test/'', 0)]\<rparr>)
     = (LoopContinue,
        \<lparr>visited_urls = {''https://a.test/''},
         queued_urls = {''https://a.test/''},
         url_queue = [],
         total_crawled = 0, successful = 0, failed = 0, robots_blocked = 1,
         put_log = [(''https://a.test/'', 0)],
         stored_pages = [], worker_errors = []\<rparr>)"
proof -
  let ?hc = "(\<lambda>_. None) :: host_check"
  let ?cfg = "\<lparr>max_depth = 3, max_pages = 1000, max_workers = 10, stay_in_domain = True\<rparr>"
  let ?a = "''https://a.test/''"
  let ?s0 = "init_state\<lparr>queued_urls := {?a}, url_queue := [(?a, 0)], put_log := [(?a, 0)]\<rparr>"
  let ?s1 = "?s0\<lparr>url_queue := [], visited_urls := insert ?a (visited_urls ?s0)\<rparr>"
  let ?sys = "\<lparr>shared = ?s0, in_fetch = [], in_store = []\<rparr>"
  let ?page = "\<lparr>gate_allows = True,
         get_result = GetResponse
           \<lparr>status = 200, content_type_header = Some ''text/html; charset=utf-8'',
            text_result = Inr \<lparr>page_title = ''A'', page_links = [''https://a.test/x''],
                               page_length = 120\<rparr>\<rparr>,
         clock = 1, body_fault = NoFault\<rparr>"
  let ?missing = "\<lparr>gate_allows = True,
         get_result = GetResponse
           \<lparr>status = 404, content_type_header = Some ''text/plain'',
            text_result = Inr \<lparr>page_title = [], page_links = [], page_length = 0\<rparr>\<rparr>,
         clock = 1, body_fault = NoFault\<rparr>"
  let ?denied = "\<lparr>gate_allows = False, get_result = GetRaised TimeoutError, clock = 1,
         body_fault = NoFault\<rparr>"
  let ?r1 = "\<lparr>url = ?a, status_code = 200, title = ''A'', content_length = 120,
              links = [''https://a.test/x''], timestamp = 1, error = None\<rparr>"
  let ?r2 = "\<lparr>url = ?a, status_code = 404, title = [], content_length = 0,
              links = [], timestamp = 1, error = None\<rparr>"
  let ?s2 = "\<lparr>visited_urls = {?a}, queued_urls = {?a, ''https://a.test/x''},
              url_queue = [(''https://a.test/x'', 1)],
              total_crawled = 0, successful = 0, failed = 0, robots_blocked = 0,
              put_log = [(?a, 0), (''https://a.test/x'', 1)],
              stored_pages = [], worker_errors = []\<rparr>"
  have "crawl_seed ?hc ?cfg [?a] = Inr ?s0"
    by (simp add: crawl_eval url_eval)
  then have h1: "reachable ?hc ?cfg [?a] ?sys"
    by (rule reachable.seeded)
  have q: "url_queue ?s0 = (?a, 0) # []" "?a \<notin> visited_urls ?s0"
    by (simp_all add: init_state_def)
  have f1: "fetch_url ?hc ?cfg ?page ?a 0 ?s1 = (Some ?r1, ?s2)"
    by (simp add: fetch_url_def str_contains_def crawl_eval url_eval insert_commute)
  have f2: "fetch_url ?hc ?cfg ?missing ?a 0 ?s1 = (Some ?r2, ?s1)"
    by (simp add: fetch_url_def str_contains_def lower_def lower_char_def)
  have nf: "body_fault ?page = NoFault" "body_fault ?missing = NoFault"
    by simp_all
  have g: "\<not> gate_allows ?denied" "\<forall>m. body_fault ?denied \<noteq> FaultBeforeFetch m"
    by simp_all
  from stats_sum_invariant[where hc = ?hc and config = ?cfg and seed_urls = "[?a]"
            and sys = ?sys and s = ?s0 and ienv = ?page and u = ?a and d = 0
            and rest = "[]" and r = ?r1 and ?s2.0 = ?s2] h1 q nf f1
  have i1: "total_crawled (shared ?sys) = successful (shared ?sys) + failed (shared ?sys)"
    and i2: "snd (worker_iteration ?hc ?cfg ?page ?s0)
            = ?s2\<lparr>stored_pages := stored_pages ?s0 @ [?r1],
                 successful := successful ?s0 + (if status_code ?r1 = 200 then 1 else 0),
                 failed := failed ?s0 + (if status_code ?r1 = 200 then 0 else 1),
                 total_crawled := total_crawled ?s0 + 1\<rparr>"
    by blast+
  from stats_sum_invariant[where hc = ?hc and config = ?cfg and s = ?s0
            and ienv = ?missing and u = ?a and d = 0 and rest = "[]" and r = ?r2
            and ?s2.0 = ?s1] q nf f2
  have i3: "snd (worker_iteration ?hc ?cfg ?missing ?s0)
            = ?s1\<lparr>stored_pages := stored_pages ?s0 @ [?r2],
                 successful := successful ?s0 + (if status_code ?r2 = 200 then 1 else 0),
                 failed := failed ?s0 + (if status_code ?r2 = 200 then 0 else 1),
                 total_crawled := total_crawled ?s0 + 1\<rparr>"
    by blast
  from stats_sum_invariant[where hc = ?hc and config = ?cfg and s = ?s0
            and ienv = ?denied and u = ?a and d = 0 and rest = "[]"] q g
  have i4: "worker_iteration ?hc ?cfg ?denied ?s0
            = (LoopContinue,
               ?s0\<lparr>url_queue := [], visited_urls := insert ?a (visited_urls ?s0),
                 robots_blocked := robots_blocked ?s0 + 1\<rparr>)"
    by blast
  show ?thesis
    using h1 i1 i2 i3 i4 by (simp add: init_state_def)
qed

section \<open>Link admission is guarded\<close>

text \<open>
  The other half of C1: \<open>fetch_url\<close> puts a link on the queue only when it is in
  neither \<open>visited_urls\<close> nor \<open>queued_urls\<close>, and \<open>queued_urls\<close> never loses an
  element. So when seeding itself has put no URL on the queue twice, no URL is ever
  put on the queue twice, in any interleaving of workers.
\<close>

lemma seed_queue_logged_queued:
  "list_all (\<lambda>t. fst t \<in> queued_urls s) (put_log s) \<Longrightarrow>
   seed_queue hc config seeds s = Inr s' \<Longrightarrow>
   list_all (\<lambda>t. fst t \<in> queued_urls s') (put_log s')"
proof (induction seeds arbitrary: s)
  case Nil
  then show ?case by simp
next
  case (Cons a seeds)
  obtain n where n: "normalize_url hc a = Inr n"
    using Cons.prems(2) by (auto split: sum.splits)
  let ?s1 = "if is_valid_url hc config n None
             then queue_put (n, 0) (s\<lparr>queued_urls := insert n (queued_urls s)\<rparr>) else s"
  have 1: "list_all (\<lambda>t. fst t \<in> queued_urls ?s1) (put_log ?s1)"
    using Cons.prems(1) by (auto simp: queue_put_def list_all_iff)
  have 2: "seed_queue hc config seeds ?s1 = Inr s'"
    using Cons.prems(2) n by simp
  show ?case by (rule Cons.IH[OF 1 2])
qed

lemma enqueue_links_admitted_once:
  "admitted_once s \<Longrightarrow> admitted_once (enqueue_links hc config b d ls s)"
proof (induction ls arbitrary: s)
  case Nil
  then show ?case by simp
next
  case (Cons link ls)
  let ?s1 = "if link \<notin> visited_urls s \<and> link \<notin> queued_urls s
                \<and> is_valid_url hc config link b
             then queue_put (link, d + 1) (s\<lparr>queued_urls := insert link (queued_urls s)\<rparr>)
             else s"
  have "admitted_once ?s1"
    using Cons.prems by (auto simp: admitted_once_def queue_put_def list_all_iff)
  then show ?case using Cons.IH[of ?s1] by simp
qed

lemma fetch_url_admitted_once:
  assumes "fetch_url hc config env u d s = (r, s')" and "admitted_once s"
  shows "admitted_once s'"
proof -
  have "s' = s \<or> s' = s\<lparr>robots_blocked := robots_blocked s + 1\<rparr>
        \<or> (\<exists>b ls. s' = enqueue_links hc config b d ls s)"
    using assms(1)
    by (auto simp: fetch_url_def split: if_splits get_event.splits sum.splits)
  then show ?thesis
    using assms(2) enqueue_links_admitted_once[of s hc config]
    by (auto simp: admitted_once_def)
qed

lemma links_admitted_at_most_once:
  assumes "crawl_seed hc config seed_urls = Inr s0"
    and "distinct (map fst (put_log s0))"
    and "reachable hc config seed_urls sys"
  shows "distinct (map fst (put_log (shared sys)))"
proof -
  have "admitted_once (shared sys)"
    using assms(3)
  proof (induction rule: reachable.induct)
    case (seeded s)
    have "s = s0" using seeded assms(1) by simp
    moreover have "list_all (\<lambda>t. fst t \<in> queued_urls s0) (put_log s0)"
      using seed_queue_logged_queued[of init_state hc config seed_urls s0] assms(1)
      by (simp add: crawl_seed_def init_state_def)
    ultimately show ?case using assms(2) by (simp add: admitted_once_def)
  next
    case (dequeue_skip sys s)
    then show ?case
      using worker_dequeue_frame[OF dequeue_skip.hyps(2)] by (simp add: admitted_once_def)
  next
    case (dequeue_task sys u d s)
    then show ?case
      using worker_dequeue_frame[OF dequeue_task.hyps(2)] by (simp add: admitted_once_def)
  next
    case (fetch_done sys u d env r s)
    then show ?case using fetch_url_admitted_once[of hc config env u d "shared sys" r s] by simp
  next
    case (store_done sys r c s)
    then show ?case
      by (auto simp: worker_account_def admitted_once_def Let_def split: if_splits)
  next
    case (fetch_fault sys t m)
    then show ?case by (simp add: log_worker_error_def admitted_once_def)
  next
    case (store_fault sys r m)
    then show ?case by (simp add: log_worker_error_def admitted_once_def)
  qed
  then show ?thesis by (simp add: admitted_once_def)
qed

section \<open>A run of the scenario with one seed and one page\<close>

text \<open>
  Seed \<open>https://a.test/\<close>, \<open>max_depth = 1\<close>, domain scoping on; the page is HTML
  with links to \<open>https://a.test/x\<close> and \<open>https://b.test/y\<close>. After the worker has
  dequeued the seed and \<open>fetch_url\<close> has ended, only \<open>https://a.test/x\<close> has been
  put on the queue, at depth 1.
\<close>

lemma scenario_a_reachable:
  "reachable (\<lambda>_. None)
     \<lparr>max_depth = 1, max_pages = 1000, max_workers = 10, stay_in_domain = True\<rparr>
     [''https://a.test/'']
     \<lparr>shared =
        \<lparr>visited_urls = {''https://a.test/''},
         queued_urls = {''https://a.test/'', ''https://a.test/x''},
         url_queue = [(''https://a.test/x'', 1)],
         total_crawled = 0, successful = 0, failed = 0, robots_blocked = 0,
         put_log = [(''https://a.test/'', 0), (''https://a.test/x'', 1)],
         stored_pages = [], worker_errors = []\<rparr>,
      in_fetch = [],
      in_store = [\<lparr>url = ''https://a.test/'', status_code = 200, title = ''A'',
                    content_length = 120,
                    links = [''https://a.test/x'', ''https://b.test/y''],
                    timestamp = 1, error = None\<rparr>]\<rparr>"
proof -
  let ?hc = "(\<lambda>_. None) :: host_check"
  let ?cfg = "\<lparr>max_depth = 1, max_pages = 1000, max_workers = 10, stay_in_domain = True\<rparr>"
  let ?seeds = "[''https://a.test/'']"
  let ?s0 = "init_state\<lparr>queued_urls := {''https://a.test/''},
                  url_queue := [(''https://a.test/'', 0)],
                  put_log := [(''https://a.test/'', 0)]\<rparr>"
  let ?s1 = "?s0\<lparr>url_queue := [], visited_urls := {''https://a.test/''}\<rparr>"
  let ?env = "\<lparr>gate_allows = True,
               get_result = GetResponse
                 \<lparr>status = 200, content_type_header = Some ''text/html; charset=utf-8'',
                  text_result = Inr \<lparr>page_title = ''A'',
                    page_links = [''https://a.test/x'', ''https://b.test/y''],
                    page_length = 120\<rparr>\<rparr>,
               clock = 1\<rparr>"
  have "crawl_seed ?hc ?cfg ?seeds = Inr ?s0"
    by (simp add: crawl_eval url_eval)
  then have r0: "reachable ?hc ?cfg ?seeds \<lparr>shared = ?s0, in_fetch = [], in_store = []\<rparr>"
    by (rule reachable.seeded)
  have "worker_dequeue ?s0 = (Crawling ''https://a.test/'' 0, ?s1)"
    by (simp add: worker_dequeue_def init_state_def)
  from reachable.dequeue_task[OF r0, of "''https://a.test/''" 0 ?s1] this
  have r1: "reachable ?hc ?cfg ?seeds
              \<lparr>shared = ?s1, in_fetch = [(''https://a.test/'', 0)], in_store = []\<rparr>"
    by simp
  let ?sys1 = "\<lparr>shared = ?s1, in_fetch = [(''https://a.test/'', 0)], in_store = []\<rparr>"
  have m: "(''https://a.test/'', 0) \<in> set (in_fetch ?sys1)" by simp
  have f: "fetch_url ?hc ?cfg ?env ''https://a.test/'' 0 (shared ?sys1)
        = (Some \<lparr>url = ''https://a.test/'', status_code = 200, title = ''A'',
                    content_length = 120,
                    links = [''https://a.test/x'', ''https://b.test/y''],
                    timestamp = 1, error = None\<rparr>,
           \<lparr>visited_urls = {''https://a.test/''},
         queued_urls = {''https://a.test/'', ''https://a.test/x''},
         url_queue = [(''https://a.test/x'', 1)],
         total_crawled = 0, successful = 0, failed = 0, robots_blocked = 0,
         put_log = [(''https://a.test/'', 0), (''https://a.test/x'', 1)],
         stored_pages = [], worker_errors = []\<rparr>)"
    by (simp add: fetch_url_def str_contains_def crawl_eval url_eval insert_commute)
  show ?thesis
    using reachable.fetch_done[OF r1 m f] by simp
qed

section \<open>Depth of the queued tasks (C2)\<close>

lemma seed_queue_depth:
  assumes "0 \<le> max_depth config"
  shows "depth_bounded config s \<Longrightarrow> seed_queue hc config seeds s = Inr s'
     \<Longrightarrow> depth_bounded config s'"
proof (induction seeds arbitrary: s)
  case Nil
  then show ?case by simp
next
  case (Cons a seeds)
  obtain n where n: "normalize_url hc a = Inr n"
    using Cons.prems(2) by (auto split: sum.splits)
  let ?s1 = "if is_valid_url hc config n None
             then queue_put (n, 0) (s\<lparr>queued_urls := insert n (queued_urls s)\<rparr>) else s"
  have "depth_bounded config ?s1"
    using Cons.prems(1) assms by (simp add: depth_bounded_def queue_put_def)
  moreover have "seed_queue hc config seeds ?s1 = Inr s'"
    using Cons.prems(2) n by simp
  ultimately show ?case by (rule Cons.IH)
qed

lemma enqueue_links_depth:
  "depth < max_depth config \<Longrightarrow> depth_bounded config s
     \<Longrightarrow> depth_bounded config (enqueue_links hc config b depth ls s)"
  by (induction ls arbitrary: s) (auto simp: queue_put_def depth_bounded_def)

lemma fetch_url_depth:
  assumes "fetch_url hc config env u depth s = (r, s')" and "depth_bounded config s"
  shows "depth_bounded config s'"
proof -
  have "s' = s \<or> s' = s\<lparr>robots_blocked := robots_blocked s + 1\<rparr>
        \<or> (depth < max_depth config \<and> (\<exists>b ls. s' = enqueue_links hc config b depth ls s))"
    using assms(1)
    by (auto simp: fetch_url_def split: if_splits get_event.splits sum.splits)
  then show ?thesis
    using assms(2) enqueue_links_depth[of depth config s hc]
    by (auto simp: depth_bounded_def)
qed

text \<open>
  C2 as stated fails for a negative \<open>max_depth\<close> (the command line accepts
  \<open>--depth -1\<close>): seeds are put on the queue at depth 0 whatever \<open>max_depth\<close>
  is. Amended: when \<open>max_depth\<close> is not negative, every task ever put on the queue
  has a depth of at most \<open>max_depth\<close>, in every state that any interleaving of
  workers reaches.
\<close>

theorem queued_depth_within_max_depth:
  assumes "0 \<le> max_depth config" and "reachable hc config seed_urls sys"
  shows "list_all (\<lambda>t. snd t \<le> max_depth config) (put_log (shared sys))"
proof -
  have "depth_bounded config (shared sys)"
    using assms(2)
  proof (induction rule: reachable.induct)
    case (seeded s)
    then show ?case
      using seed_queue_depth[OF assms(1), of init_state hc seed_urls s]
      by (simp add: crawl_seed_def depth_bounded_def init_state_def)
  next
    case (dequeue_skip sys s)
    then show ?case
      by (auto simp: worker_dequeue_def depth_bounded_def split: list.splits if_splits)
  next
    case (dequeue_task sys u d s)
    then show ?case
      by (auto simp: worker_dequeue_def depth_bounded_def split: list.splits if_splits)
  next
    case (fetch_done sys u d env r s)
    then show ?case using fetch_url_depth[of hc config env u d "shared sys" r s] by simp
  next
    case (store_done sys r c s)
    then show ?case by (auto simp: worker_account_def depth_bounded_def Let_def split: if_splits)
  next
    case (fetch_fault sys t m)
    then show ?case by (simp add: log_worker_error_def depth_bounded_def)
  next
    case (store_fault sys r m)
    then show ?case by (simp add: log_worker_error_def depth_bounded_def)
  qed
  then show ?thesis by (simp add: depth_bounded_def)
qed

theorem queued_depth_within_max_depth_witness:
  "(0::int) \<le> max_depth \<lparr>max_depth = 1, max_pages = 1000, max_workers = 10,
                           stay_in_domain = True\<rparr>
   \<and> list_all (\<lambda>t. snd t \<le> (1::int)) [(''https://a.test/'', 0), (''https://a.test/x'', 1)]"
proof -
  have h: "0 \<le> max_depth \<lparr>max_depth = 1, max_pages = 1000, max_workers = 10,
                           stay_in_domain = True\<rparr>"
    by simp
  show ?thesis
    using queued_depth_within_max_depth[OF h scenario_a_reachable] by simp
qed

theorem negative_max_depth_counterexample:
  "reachable (\<lambda>_. None) \<lparr>max_depth = - 1, max_pages = 1000, max_workers = 10, stay_in_domain = True\<rparr>
     [''https://a.test/'']
     \<lparr>shared = init_state\<lparr>queued_urls := {''https://a.test/''},
                 url_queue := [(''https://a.test/'', 0)],
                 put_log := [(''https://a.test/'', 0)]\<rparr>,
      in_fetch = [], in_store = []\<rparr>
   \<and> \<not> list_all (\<lambda>t. snd t \<le> max_depth \<lparr>max_depth = - 1, max_pages = 1000, max_workers = 10, stay_in_domain = True\<rparr>)
          (put_log (init_state\<lparr>queued_urls := {''https://a.test/''},
                 url_queue := [(''https://a.test/'', 0)],
                 put_log := [(''https://a.test/'', 0)]\<rparr>))"
proof -
  have "crawl_seed (\<lambda>_. None) \<lparr>max_depth = - 1, max_pages = 1000, max_workers = 10, stay_in_domain = True\<rparr>
     [''https://a.test/''] = Inr (init_state\<lparr>queued_urls := {''https://a.test/''},
                 url_queue := [(''https://a.test/'', 0)],
                 put_log := [(''https://a.test/'', 0)]\<rparr>)"
    by (simp add: crawl_eval url_eval)
  then show ?thesis
    using reachable.seeded by simp
qed

section \<open>When a worker leaves its loop (C9)\<close>





section \<open>Domain scoping (C4)\<close>

lemma has_seed_host_cong:
  "url_host hc x = url_host hc y \<Longrightarrow>
     has_seed_host hc config seeds x = has_seed_host hc config seeds y"
  by (auto simp: has_seed_host_def list_ex_iff split: sum.splits)

lemma valid_in_domain:
  assumes "is_valid_url hc config u (Some b)" and "b \<noteq> []" and "stay_in_domain config"
  shows "is_valid_url hc config u None \<and> url_host hc u = Some (lower b)"
  using assms by (auto simp: is_valid_url_def url_host_def split: sum.splits if_splits)

lemma valid_has_host:
  assumes "is_valid_url hc config u None"
  shows "\<exists>p. urlparse hc u = Inr p \<and> netloc p \<noteq> []
             \<and> url_host hc u = Some (lower (netloc p))"
  using assms by (auto simp: is_valid_url_def url_host_def split: sum.splits if_splits)

lemma seed_queue_scope:
  assumes "set rest \<subseteq> set seeds"
    and "list_all (in_scope hc config seeds) (put_log s)"
    and "set (url_queue s) \<subseteq> set (put_log s)"
    and "seed_queue hc config rest s = Inr s'"
  shows "list_all (in_scope hc config seeds) (put_log s')
         \<and> set (url_queue s') \<subseteq> set (put_log s')"
  using assms
proof (induction rest arbitrary: s)
  case Nil
  then show ?case by simp
next
  case (Cons a rest)
  obtain n where n: "normalize_url hc a = Inr n"
    using Cons.prems(4) by (auto split: sum.splits)
  let ?s1 = "if is_valid_url hc config n None
             then queue_put (n, 0) (s\<lparr>queued_urls := insert n (queued_urls s)\<rparr>) else s"
  have a: "a \<in> set seeds" using Cons.prems(1) by simp
  have sc: "is_valid_url hc config n None \<Longrightarrow> in_scope hc config seeds (n, 0)"
    using a n by (auto simp: in_scope_def has_seed_host_def list_ex_iff intro!: bexI[of _ a])
  have 1: "list_all (in_scope hc config seeds) (put_log ?s1)"
    using Cons.prems(2) sc by (simp add: queue_put_def)
  have 2: "set (url_queue ?s1) \<subseteq> set (put_log ?s1)"
    using Cons.prems(3) by (auto simp: queue_put_def)
  have 3: "seed_queue hc config rest ?s1 = Inr s'"
    using Cons.prems(4) n by simp
  have 4: "set rest \<subseteq> set seeds" using Cons.prems(1) by simp
  show ?case by (rule Cons.IH[OF 4 1 2 3])
qed

lemma enqueue_links_scope:
  assumes "stay_in_domain config" and "b \<noteq> []"
    and "has_seed_host hc config seeds u" and "url_host hc u = Some (lower b)"
  shows "list_all (in_scope hc config seeds) (put_log s) \<Longrightarrow>
         set (url_queue s) \<subseteq> set (put_log s) \<Longrightarrow>
         list_all (in_scope hc config seeds) (put_log (enqueue_links hc config (Some b) d ls s))
         \<and> set (url_queue (enqueue_links hc config (Some b) d ls s))
             \<subseteq> set (put_log (enqueue_links hc config (Some b) d ls s))
         \<and> set (put_log s) \<subseteq> set (put_log (enqueue_links hc config (Some b) d ls s))"
proof (induction ls arbitrary: s)
  case Nil
  then show ?case by simp
next
  case (Cons link ls)
  let ?s1 = "if link \<notin> visited_urls s \<and> link \<notin> queued_urls s
                \<and> is_valid_url hc config link (Some b)
             then queue_put (link, d + 1) (s\<lparr>queued_urls := insert link (queued_urls s)\<rparr>)
             else s"
  have sc: "is_valid_url hc config link (Some b) \<Longrightarrow> in_scope hc config seeds (link, d + 1)"
    using valid_in_domain[of hc config link b] assms
          has_seed_host_cong[of hc link u config seeds]
    by (simp add: in_scope_def)
  have 1: "list_all (in_scope hc config seeds) (put_log ?s1)"
    using Cons.prems(1) sc by (simp add: queue_put_def)
  have 2: "set (url_queue ?s1) \<subseteq> set (put_log ?s1)"
    using Cons.prems(2) by (auto simp: queue_put_def)
  have 3: "set (put_log s) \<subseteq> set (put_log ?s1)"
    by (auto simp: queue_put_def)
  show ?case using Cons.IH[OF 1 2] 3 by auto
qed

lemma fetch_url_scope:
  assumes "stay_in_domain config" and "in_scope hc config seeds (u, d)"
    and "list_all (in_scope hc config seeds) (put_log s)"
    and "set (url_queue s) \<subseteq> set (put_log s)"
    and "fetch_url hc config env u d s = (r, s')"
  shows "list_all (in_scope hc config seeds) (put_log s')
         \<and> set (url_queue s') \<subseteq> set (put_log s')
         \<and> set (put_log s) \<subseteq> set (put_log s')"
proof -
  obtain p where p: "urlparse hc u = Inr p" "netloc p \<noteq> []"
      "url_host hc u = Some (lower (netloc p))"
    using valid_has_host[of hc config u] assms(2) by (auto simp: in_scope_def)
  have hs: "has_seed_host hc config seeds u"
    using assms(2) by (simp add: in_scope_def)
  have "s' = s \<or> s' = s\<lparr>robots_blocked := robots_blocked s + 1\<rparr>
        \<or> (\<exists>ls. s' = enqueue_links hc config (Some (netloc p)) d ls s)"
    using assms(1,5) p(1)
    by (auto simp: fetch_url_def split: if_splits get_event.splits sum.splits)
  then consider "s' = s" | "s' = s\<lparr>robots_blocked := robots_blocked s + 1\<rparr>"
    | ls where "s' = enqueue_links hc config (Some (netloc p)) d ls s"
    by blast
  then show ?thesis
  proof cases
    case 1
    then show ?thesis using assms(3,4) by simp
  next
    case 2
    then show ?thesis using assms(3,4) by simp
  next
    case 3
    then show ?thesis
      using enqueue_links_scope[OF assms(1) p(2) hs p(3) assms(3,4), of d ls] by simp
  qed
qed

lemma reachable_in_scope:
  assumes "stay_in_domain config" and "reachable hc config seed_urls sys"
  shows "list_all (in_scope hc config seed_urls) (put_log (shared sys))
         \<and> set (url_queue (shared sys)) \<subseteq> set (put_log (shared sys))
         \<and> set (in_fetch sys) \<subseteq> set (put_log (shared sys))"
  using assms(2)
proof (induction rule: reachable.induct)
  case (seeded s)
  then show ?case
    using seed_queue_scope[of seed_urls seed_urls hc config init_state s]
    by (simp add: crawl_seed_def init_state_def)
next
  case (dequeue_skip sys s)
  then show ?case
    using worker_dequeue_frame[OF dequeue_skip.hyps(2)] by auto
next
  case (dequeue_task sys u d s)
  then show ?case
    using worker_dequeue_frame[OF dequeue_task.hyps(2)] by auto
next
  case (fetch_done sys u d env r s)
  have sc: "in_scope hc config seed_urls (u, d)"
    using fetch_done.IH fetch_done.hyps(2) by (auto simp: list_all_iff)
  have "list_all (in_scope hc config seed_urls) (put_log s)
        \<and> set (url_queue s) \<subseteq> set (put_log s)
        \<and> set (put_log (shared sys)) \<subseteq> set (put_log s)"
    using fetch_url_scope[OF assms(1) sc _ _ fetch_done.hyps(3)] fetch_done.IH by simp
  moreover have "set (remove1 (u, d) (in_fetch sys)) \<subseteq> set (in_fetch sys)"
    by (rule set_remove1_subset)
  ultimately show ?case using fetch_done.IH by auto
next
  case (store_done sys r c s)
  have "put_log s = put_log (shared sys) \<and> url_queue s = url_queue (shared sys)"
    using store_done.hyps(3) by (auto simp: worker_account_def Let_def split: if_splits)
  then show ?case using store_done.IH by simp
next
  case (fetch_fault sys t m)
  have "set (remove1 t (in_fetch sys)) \<subseteq> set (in_fetch sys)"
    by (rule set_remove1_subset)
  then show ?case using fetch_fault.IH by (simp add: log_worker_error_def) blast
next
  case (store_fault sys r m)
  then show ?case by (simp add: log_worker_error_def)
qed

text \<open>
  C4: with \<open>stay_in_domain\<close> on, every task ever put on the queue, in every state
  that any interleaving of workers reaches, has a host part, and that host part is,
  up to letter case, the host part of a seed task (a seed as normalized and put on the
  queue). The links of a page are tested against the host part of the page's own URL,
  which by induction is a seed's. With a single seed every task has that seed's host.
  The host part compared is \<open>netloc\<close>: user information, host name and port.
\<close>

theorem domain_scoping_keeps_seed_host:
  assumes "stay_in_domain config" and "reachable hc config seed_urls sys"
  shows "list_all (\<lambda>t. url_host hc (fst t) \<noteq> None
                       \<and> has_seed_host hc config seed_urls (fst t))
           (put_log (shared sys))"
proof -
  have "list_all (in_scope hc config seed_urls) (put_log (shared sys))"
    using reachable_in_scope[OF assms] by simp
  then show ?thesis
    using valid_has_host[of hc config]
    by (auto simp: list_all_iff in_scope_def)
qed

theorem domain_scoping_keeps_seed_host_witness:
  "stay_in_domain \<lparr>max_depth = 1, max_pages = 1000, max_workers = 10, stay_in_domain = True\<rparr>
   \<and> url_host (\<lambda>_. None) ''https://a.test/x'' = url_host (\<lambda>_. None) ''https://a.test/''
   \<and> url_host (\<lambda>_. None) ''https://a.test/x'' = Some ''a.test''
   \<and> has_seed_host (\<lambda>_. None)
         \<lparr>max_depth = 1, max_pages = 1000, max_workers = 10, stay_in_domain = True\<rparr>
         [''https://a.test/''] ''https://a.test/x''
   \<and> \<not> has_seed_host (\<lambda>_. None)
         \<lparr>max_depth = 1, max_pages = 1000, max_workers = 10, stay_in_domain = True\<rparr>
         [''https://a.test/''] ''https://b.test/y''"
proof -
  have h: "stay_in_domain
             \<lparr>max_depth = 1, max_pages = 1000, max_workers = 10, stay_in_domain = True\<rparr>"
    by simp
  have e: "url_host (\<lambda>_. None) ''https://a.test/x'' = Some ''a.test''
           \<and> url_host (\<lambda>_. None) ''https://a.test/'' = Some ''a.test''
           \<and> url_host (\<lambda>_. None) ''https://b.test/y'' = Some ''b.test''"
    by (simp add: url_host_def url_eval)
  have n: "normalize_url (\<lambda>_. None) ''https://a.test/'' = Inr ''https://a.test/''"
    by (simp add: normalize_url_def url_eval)
  show ?thesis
    using domain_scoping_keeps_seed_host[OF h scenario_a_reachable] e n
    by (simp add: has_seed_host_def)
qed

section \<open>The politeness gate never caches (C3)\<close>

lemma rp_feed_raises:
  "fst (rp_feed content rp) \<noteq> None \<and> snd (rp_feed content rp) = rp"
  by (simp add: rp_feed_def RobotFileParser_attributes_def)

lemma set_url_then_feed_raises:
  "fst (set_url_then_feed hc robots_url content rp) \<noteq> None"
  using rp_feed_raises
  by (simp add: set_url_then_feed_def split: prod.splits option.splits)

lemma load_robots_never_caches:
  "fst (load_robots hc urljoin answer domain rc) \<noteq> None
   \<and> robots_cache (snd (load_robots hc urljoin answer domain rc)) = robots_cache rc
   \<and> user_agent (snd (load_robots hc urljoin answer domain rc)) = user_agent rc"
proof (cases "urljoin domain ''/robots.txt''")
  case (Inl e)
  then show ?thesis by (simp add: load_robots_def)
next
  case (Inr robots_url)
  have h: "\<And>c r rp1. set_url_then_feed hc robots_url c r \<noteq> (None, rp1)"
    using set_url_then_feed_raises by (metis fst_conv)
  show ?thesis
    using Inr h
    by (simp add: load_robots_def Let_def split: prod.splits option.splits sum.splits)
qed

text \<open>
  For every URL, every answer of the network and every state of the checker,
  \<open>can_fetch\<close> leaves the cache as it was; from an empty cache it answers
  \<open>True\<close>. The cache of a new checker is empty, so it stays empty for the whole run
  and \<open>can_fetch\<close> never denies.
\<close>

lemma can_fetch_cache_unchanged:
  "robots_cache (snd (can_fetch hc urljoin answer u rc)) = robots_cache rc"
proof (cases "urlparse hc u")
  case (Inl e)
  then show ?thesis by (simp add: can_fetch_def)
next
  case (Inr parsed)
  let ?d = "scheme parsed @ ''://'' @ netloc parsed"
  show ?thesis
  proof (cases "?d \<in> dom (robots_cache rc)")
    case True
    then show ?thesis using Inr by (auto simp: can_fetch_def Let_def split: option.splits)
  next
    case False
    obtain e rc1 where l: "load_robots hc urljoin answer ?d rc = (Some e, rc1)"
      using load_robots_never_caches[of hc urljoin answer ?d rc]
      by (cases "load_robots hc urljoin answer ?d rc") auto
    then have "robots_cache rc1 = robots_cache rc"
      using load_robots_never_caches[of hc urljoin answer ?d rc] by simp
    then show ?thesis using Inr False l by (simp add: can_fetch_def Let_def)
  qed
qed

lemma can_fetch_uncached_allows:
  assumes "robots_cache rc = Map.empty"
  shows "fst (can_fetch hc urljoin answer u rc)"
proof (cases "urlparse hc u")
  case (Inl e)
  then show ?thesis by (simp add: can_fetch_def)
next
  case (Inr parsed)
  let ?d = "scheme parsed @ ''://'' @ netloc parsed"
  obtain e rc1 where l: "load_robots hc urljoin answer ?d rc = (Some e, rc1)"
    using load_robots_never_caches[of hc urljoin answer ?d rc]
    by (cases "load_robots hc urljoin answer ?d rc") auto
  show ?thesis using Inr assms l by (simp add: can_fetch_def Let_def)
qed

text \<open>
  C3 says that after a failed robots fetch the domain is cached with an allow-all rule
  set, so that a second call for the domain does not fetch again. The call does
  answer \<open>True\<close>, but through the outer handler: \<open>rp.feed("")\<close> raises
  \<open>AttributeError\<close> (in the \<open>else\<close> branch, and again in the inner handler), and
  \<open>self.robots_cache[domain] = rp\<close> is never reached. Two calls for the same
  domain, robots.txt answering 404 each time, request the robots file twice and
  leave the cache empty. \<open>urljoin\<close> is taken as what the library returns for a base
  \<open>scheme://host\<close> and an absolute path: the two joined.
\<close>

theorem failed_robots_fetch_is_not_cached:
  "can_fetch (\<lambda>_. None) (\<lambda>base rel. Inr (base @ rel))
      (Inr \<lparr>robots_status = 404, robots_text = Inr []\<rparr>)
      ''https://a.test/page'' new_RobotsChecker
     = (True, new_RobotsChecker\<lparr>robots_requests := [''https://a.test/robots.txt'']\<rparr>)
   \<and> can_fetch (\<lambda>_. None) (\<lambda>base rel. Inr (base @ rel))
      (Inr \<lparr>robots_status = 404, robots_text = Inr []\<rparr>)
      ''https://a.test/other''
      (new_RobotsChecker\<lparr>robots_requests := [''https://a.test/robots.txt'']\<rparr>)
     = (True, new_RobotsChecker\<lparr>robots_requests :=
                [''https://a.test/robots.txt'', ''https://a.test/robots.txt'']\<rparr>)
   \<and> robots_cache (new_RobotsChecker\<lparr>robots_requests :=
                [''https://a.test/robots.txt'', ''https://a.test/robots.txt'']\<rparr>)
       = Map.empty"
  by (simp add: can_fetch_def load_robots_def set_url_then_feed_def rp_set_url_def
        rp_feed_def RobotFileParser_attributes_def new_RobotsChecker_def
        new_RobotFileParser_def url_eval)

section \<open>What the normalizer identifies (C6)\<close>

subsection \<open>The fragment\<close>

















subsection \<open>Letter case of scheme and host\<close>

















lemma plain_host_host_part: "plain_host n \<Longrightarrow> host_part n"
  by (auto simp: plain_host_def host_part_def netloc_delims_def list_all_iff)






subsection \<open>Parsing the result again\<close>



















lemmas lib_eval =
  check_bracketed_host_def ipvfuture_match_def hex_digits_def ip_address_def is_ipv4_def
  parse_octet_ok_def decimal_digits_def decimal_value_def py_repr_def repr_char_def
  py_printable_def hex2_def bracketed_host_def




text \<open>
  The counterexample to C6 as stated: two strings that differ by the case of one
  letter of the host. It holds for every IPv6 parser the library may use; neither
  host holds a colon, so the parser is not consulted.
\<close>

theorem bracketed_host_case_changes_result:
  "\<forall>ipv6.
     normalize_url (check_bracketed_host ipv6) (''http'' @ ''://'' @ ''[v1.x]'' @ ''/'')
       = Inr ''http://[v1.x]/''
     \<and> normalize_url (check_bracketed_host ipv6) (''http'' @ ''://'' @ ''[V1.x]'' @ ''/'')
       = Inl (ValueError ([CHR 0x27] @ ''V1.x'' @ [CHR 0x27]
                @ '' does not appear to be an IPv4 or IPv6 address''))
     \<and> lower ''[V1.x]'' = lower ''[v1.x]''"
  by (simp add: normalize_url_def url_eval lib_eval char_of_def bit_0)

end
